theory Spec2Isabelle
  imports Complex_Main "HOL-Library.Multiset"
begin

section \<open>Data model (types.ts)\<close>

text \<open>
  The interfaces of \<^verbatim>\<open>types.ts\<close> become records, its enums datatypes. JavaScript
  numbers that hold coordinates and angles are idealised as reals; the score, which only
  ever counts up from zero by one, is a natural number. The field \<^verbatim>\<open>id\<close> of
  \<^verbatim>\<open>TreeData\<close> is called \<open>tree_id\<close>, since \<open>id\<close> is the identity function of HOL.
\<close>

record GeoLocation =
  lat :: real
  lng :: real
  label :: "string option"

record TreeData =
  tree_id :: string
  commonName :: string
  scientificName :: string
  autumnDescription :: string
  springDescription :: string
  habitats :: "GeoLocation list"
  funFact :: string

record GameRound =
  targetTree :: TreeData
  options :: "string list"
  autumnImageUrl :: string
  springImageUrl :: "string option"

datatype Difficulty = EASY | MEDIUM | HARD

datatype GameStatus = IDLE | DIFFICULTY_SELECTION | LOADING | GUESSING | RESULT | ERROR

section \<open>The content provider (services/geminiService.ts)\<close>

text \<open>
  An \<^verbatim>\<open>async\<close> function returns a promise, which settles as fulfilled with a value or as
  rejected with an error. The errors that occur are the failure of a provider call, the
  \<^verbatim>\<open>Error("No image data returned from Gemini")\<close> that \<^verbatim>\<open>generateTreeImage\<close> throws itself,
  and the \<^verbatim>\<open>TypeError\<close> of reading a property of \<^verbatim>\<open>undefined\<close>.
\<close>

datatype error = ProviderError | NoImageData | TypeError

datatype 'a promise = Fulfilled 'a | Rejected error

datatype season = Autumn | Spring

text \<open>
  Everything outside the program that one handler run consults is collected in a record:
  what the model answers to the tree-list prompt (already parsed by \<^verbatim>\<open>JSON.parse\<close>,
  rejected when the call or the parse fails), what it answers to an image prompt (the
  \<^verbatim>\<open>inlineData.data\<close> of the first part that has one, if any), the readings of
  \<^verbatim>\<open>Date.now()\<close>, and the outcome of the two sorts with the random comparator
  \<^verbatim>\<open>() => 0.5 - Math.random()\<close>. Such a sort returns the elements of its argument in an
  order that the program does not control; the theorems that need it assume no more than
  that the result is a permutation of the argument.
\<close>

record provider =
  generateContent_trees :: "Difficulty \<Rightarrow> TreeData list promise"
  generateContent_image :: "string \<Rightarrow> season \<Rightarrow> string option promise"
  Date_now :: "nat \<Rightarrow> nat"
  sort_random_trees :: "TreeData list \<Rightarrow> TreeData list"
  sort_random_names :: "string list \<Rightarrow> string list"

definition sorts_permute :: "provider \<Rightarrow> bool" where
  "sorts_permute env \<longleftrightarrow>
     (\<forall>ts. mset (sort_random_trees env ts) = mset ts) \<and>
     (\<forall>ns. mset (sort_random_names env ns) = mset ns)"

text \<open>Decimal rendering of a number inside a template string.\<close>

definition digit_char :: "nat \<Rightarrow> char" where
  "digit_char d = char_of (48 + d)"

fun decimal :: "nat \<Rightarrow> string" where
  "decimal n = (if n < 10 then [digit_char n] else decimal (n div 10) @ [digit_char (n mod 10)])"

declare decimal.simps [simp del]

text \<open>
  \<^verbatim>\<open>data.map((t, index) => ({ ...t, id: `tree-${Date.now()}-${index}` }))\<close>: the element at
  position \<open>index\<close> gets an id made of the clock reading taken for it and of its position.
\<close>

definition id_template :: "nat \<Rightarrow> nat \<Rightarrow> string" where
  "id_template now index = ''tree-'' @ decimal now @ ''-'' @ decimal index"

fun assign_ids :: "provider \<Rightarrow> nat \<Rightarrow> TreeData list \<Rightarrow> TreeData list" where
  "assign_ids env index [] = []"
| "assign_ids env index (t # ts) =
     t\<lparr>tree_id := id_template (Date_now env index) index\<rparr> # assign_ids env (Suc index) ts"

definition fetchNewTrees :: "provider \<Rightarrow> Difficulty \<Rightarrow> TreeData list promise" where
  "fetchNewTrees env difficulty =
     (case generateContent_trees env difficulty of
        Rejected e \<Rightarrow> Rejected e
      | Fulfilled data \<Rightarrow> Fulfilled (assign_ids env 0 data))"

definition generateTreeImage :: "provider \<Rightarrow> string \<Rightarrow> season \<Rightarrow> string promise" where
  "generateTreeImage env description season =
     (case generateContent_image env description season of
        Rejected e \<Rightarrow> Rejected e
      | Fulfilled None \<Rightarrow> Rejected NoImageData
      | Fulfilled (Some inlineData) \<Rightarrow> Fulfilled (''data:image/png;base64,'' @ inlineData))"

section \<open>The round controller (App.tsx)\<close>

text \<open>The nine \<^verbatim>\<open>useState\<close> cells of the component \<^verbatim>\<open>App\<close>.\<close>

record app_state =
  status :: GameStatus
  difficulty :: "Difficulty option"
  currentRound :: "GameRound option"
  pool :: "TreeData list"
  score :: nat
  selectedOption :: "string option"
  isCorrect :: "bool option"
  loadingStep :: string
  isFactLoading :: bool

definition initial_state :: app_state where
  "initial_state =
     \<lparr>status = DIFFICULTY_SELECTION, difficulty = None, currentRound = None, pool = [],
      score = 0, selectedOption = None, isCorrect = None, loadingStep = [],
      isFactLoading = False\<rparr>"

text \<open>
  A handler run is described by the promise the \<^verbatim>\<open>async\<close> function returns and by the
  component state once that promise has settled. While it waits for the provider the status
  is \<^verbatim>\<open>LOADING\<close>, and the loading view has no control the player could use, so no other
  handler runs in between (the one exception, fact regeneration, is split in two below).
\<close>

type_synonym 'a async = "'a promise \<times> app_state"

subsection \<open>startRound\<close>

text \<open>
  Lines 60 to 66: the distractors are the common names of the first two specimens of the
  randomly ordered pool without the specimens that carry the target's id; the options are
  the target's common name and the distractors, randomly ordered.
\<close>

definition sampled_distractors :: "provider \<Rightarrow> TreeData \<Rightarrow> TreeData list \<Rightarrow> TreeData list" where
  "sampled_distractors env target currentPool =
     take 2 (sort_random_trees env
       (filter (\<lambda>t. tree_id t \<noteq> tree_id target) currentPool))"

definition round_options :: "provider \<Rightarrow> TreeData \<Rightarrow> TreeData list \<Rightarrow> string list" where
  "round_options env target currentPool =
     (let distractors = map commonName (sampled_distractors env target currentPool)
      in sort_random_names env (commonName target # distractors))"

text \<open>
  The body of the \<^verbatim>\<open>try\<close> block. The target is optional because \<^verbatim>\<open>initGame\<close> passes
  \<^verbatim>\<open>trees[0]\<close>, which is \<^verbatim>\<open>undefined\<close> for an empty pool; reading its
  \<^verbatim>\<open>autumnDescription\<close> then throws.
\<close>

definition startRound_try ::
  "provider \<Rightarrow> TreeData option \<Rightarrow> TreeData list \<Rightarrow> app_state \<Rightarrow> unit async" where
  "startRound_try env target currentPool s =
     (case target of
        None \<Rightarrow> (Rejected TypeError, s)
      | Some tgt \<Rightarrow>
          (case generateTreeImage env (autumnDescription tgt) Autumn of
             Rejected e \<Rightarrow> (Rejected e, s)
           | Fulfilled autumnImg \<Rightarrow>
               (Fulfilled (),
                s\<lparr>currentRound :=
                     Some \<lparr>targetTree = tgt, options = round_options env tgt currentPool,
                           autumnImageUrl = autumnImg, springImageUrl = None\<rparr>,
                   selectedOption := None,
                   isCorrect := None,
                   status := GUESSING\<rparr>)))"

text \<open>
  Lines 55 and 56, before the \<^verbatim>\<open>try\<close>: the state in which \<^verbatim>\<open>startRound\<close> waits for the
  autumn image.
\<close>

definition startRound_awaiting :: "app_state \<Rightarrow> app_state" where
  "startRound_awaiting s =
     s\<lparr>status := LOADING,
       loadingStep := ''Isolating seasonal markers for the next specimen...''\<rparr>"

definition startRound ::
  "provider \<Rightarrow> TreeData option \<Rightarrow> TreeData list \<Rightarrow> app_state \<Rightarrow> unit async" where
  "startRound env target currentPool s =
     (let s1 = startRound_awaiting s
      in case startRound_try env target currentPool s1 of
           (Fulfilled u, s2) \<Rightarrow> (Fulfilled (), s2)
         | (Rejected e, s2) \<Rightarrow> (Fulfilled (), s2\<lparr>status := ERROR\<rparr>))"

subsection \<open>initGame\<close>

text \<open>The value of the enum, in lower case, as \<^verbatim>\<open>selectedDifficulty.toLowerCase()\<close> gives it.\<close>

fun Difficulty_toLowerCase :: "Difficulty \<Rightarrow> string" where
  "Difficulty_toLowerCase EASY = ''easy''"
| "Difficulty_toLowerCase MEDIUM = ''medium''"
| "Difficulty_toLowerCase HARD = ''hard''"

text \<open>\<^verbatim>\<open>trees[0]\<close>, which is \<^verbatim>\<open>undefined\<close> when the array is empty.\<close>

fun first_element :: "'a list \<Rightarrow> 'a option" where
  "first_element [] = None"
| "first_element (x # xs) = Some x"

definition initGame_try :: "provider \<Rightarrow> Difficulty \<Rightarrow> app_state \<Rightarrow> unit async" where
  "initGame_try env selectedDifficulty s =
     (let s1 = s\<lparr>difficulty := Some selectedDifficulty,
                 status := LOADING,
                 loadingStep :=
                   ''Stepping onto the '' @ Difficulty_toLowerCase selectedDifficulty
                     @ '' trail...''\<rparr>
      in case fetchNewTrees env selectedDifficulty of
           Rejected e \<Rightarrow> (Rejected e, s1)
         | Fulfilled trees \<Rightarrow>
             startRound env (first_element trees) trees (s1\<lparr>pool := trees\<rparr>))"

definition initGame :: "provider \<Rightarrow> Difficulty \<Rightarrow> app_state \<Rightarrow> unit async" where
  "initGame env selectedDifficulty s =
     (case initGame_try env selectedDifficulty s of
        (Fulfilled u, s1) \<Rightarrow> (Fulfilled (), s1)
      | (Rejected e, s1) \<Rightarrow> (Fulfilled (), s1\<lparr>status := ERROR\<rparr>))"

subsection \<open>handleGuess\<close>

definition handleGuess :: "provider \<Rightarrow> string \<Rightarrow> app_state \<Rightarrow> unit async" where
  "handleGuess env choice s =
     (case currentRound s of
        None \<Rightarrow> (Fulfilled (), s)
      | Some rd \<Rightarrow>
          (let correct = (choice = commonName (targetTree rd));
               s1 = s\<lparr>selectedOption := Some choice, isCorrect := Some correct\<rparr>
           in if correct then
                (let s2 = s1\<lparr>score := score s1 + 1,
                            status := LOADING,
                            loadingStep := ''Waiting for the first light of spring...''\<rparr>
                 in case generateTreeImage env (springDescription (targetTree rd)) Spring of
                      Fulfilled springImg \<Rightarrow>
                        (Fulfilled (),
                         s2\<lparr>currentRound :=
                              map_option (\<lambda>prev. prev\<lparr>springImageUrl := Some springImg\<rparr>)
                                (currentRound s2),
                            status := RESULT\<rparr>)
                    | Rejected e \<Rightarrow> (Fulfilled (), s2\<lparr>status := RESULT\<rparr>))
              else (Fulfilled (), s1\<lparr>status := RESULT\<rparr>)))"

subsection \<open>handleRegenerateFact\<close>

text \<open>
  The result view stays usable while the fact request is outstanding, so this handler is
  given in two parts: what it does up to the \<^verbatim>\<open>await\<close>, and what it does once the
  request has settled (the outcome of \<^verbatim>\<open>fetchNewFunFact\<close> is the argument).
\<close>

definition handleRegenerateFact_request :: "app_state \<Rightarrow> app_state" where
  "handleRegenerateFact_request s =
     (if currentRound s = None \<or> isFactLoading s then s else s\<lparr>isFactLoading := True\<rparr>)"

definition handleRegenerateFact_settled :: "string promise \<Rightarrow> app_state \<Rightarrow> app_state" where
  "handleRegenerateFact_settled outcome s =
     (case outcome of
        Fulfilled newFact \<Rightarrow>
          s\<lparr>currentRound :=
               map_option
                 (\<lambda>prev. prev\<lparr>targetTree := (targetTree prev)\<lparr>funFact := newFact\<rparr>\<rparr>)
                 (currentRound s)\<rparr>
      | Rejected e \<Rightarrow> s)
     \<lparr>isFactLoading := False\<rparr>"

subsection \<open>nextRound\<close>

text \<open>\<^verbatim>\<open>Array.prototype.findIndex\<close>: the first position that satisfies the test, or \<open>-1\<close>.\<close>

fun findIndex :: "('a \<Rightarrow> bool) \<Rightarrow> 'a list \<Rightarrow> int" where
  "findIndex p [] = - 1"
| "findIndex p (x # xs) =
     (if p x then 0 else (let i = findIndex p xs in if i < 0 then - 1 else i + 1))"

text \<open>
  \<^verbatim>\<open>currentRound?.targetTree.id\<close> is \<^verbatim>\<open>undefined\<close> without a round, and no id equals it.
  \<^verbatim>\<open>nextRound\<close> is not \<^verbatim>\<open>async\<close>: it starts \<^verbatim>\<open>startRound\<close> or \<^verbatim>\<open>initGame\<close> and drops the
  promise; the state given here is the one reached when that promise has settled.
\<close>

definition nextIdx :: "app_state \<Rightarrow> int" where
  "nextIdx s =
     findIndex (\<lambda>t. Some (tree_id t) = map_option (\<lambda>rd. tree_id (targetTree rd)) (currentRound s))
       (pool s) + 1"

definition nextRound :: "provider \<Rightarrow> app_state \<Rightarrow> app_state" where
  "nextRound env s =
     (if nextIdx s < int (length (pool s))
      then snd (startRound env (Some (pool s ! nat (nextIdx s))) (pool s) s)
      else (case difficulty s of
              Some d \<Rightarrow> snd (initGame env d s)
            | None \<Rightarrow> s))"

subsection \<open>Return to the trailhead, and what the view shows\<close>

text \<open>Lines 249 and 393: \<^verbatim>\<open>onClick={() => setStatus(GameStatus.DIFFICULTY_SELECTION)}\<close>.\<close>

definition returnToDifficultySelection :: "app_state \<Rightarrow> app_state" where
  "returnToDifficultySelection s = s\<lparr>status := DIFFICULTY_SELECTION\<rparr>"

text \<open>
  Line 274, the \<^verbatim>\<open>src\<close> of the specimen image:
  \<^verbatim>\<open>isCorrect ? (currentRound.springImageUrl || currentRound.autumnImageUrl) : currentRound.autumnImageUrl\<close>.
  The operator \<^verbatim>\<open>||\<close> also skips an empty string.
\<close>

definition displayed_image :: "app_state \<Rightarrow> GameRound \<Rightarrow> string" where
  "displayed_image s rd =
     (if isCorrect s = Some True
      then (case springImageUrl rd of
              None \<Rightarrow> autumnImageUrl rd
            | Some url \<Rightarrow> if url = [] then autumnImageUrl rd else url)
      else autumnImageUrl rd)"

subsection \<open>Events\<close>

text \<open>
  What the player can do, and the one settlement that can arrive while the player is able
  to act. Which controls exist is read off the JSX: the difficulty buttons are the whole
  selection view; the loading view has no control; every other status shows the main view
  with the two return controls and, when there is a round, the option buttons while
  guessing (each \<^verbatim>\<open>disabled={selectedOption !== null}\<close>) or the result panel with its
  continue button and, after a correct guess, the fact button
  (\<^verbatim>\<open>disabled={isFactLoading}\<close>).
\<close>

datatype event =
    SelectDifficulty Difficulty
  | SelectOption string
  | Advance
  | RegenerateFact
  | FactSettled "string promise"
  | ReturnToDifficultySelection

fun enabled :: "app_state \<Rightarrow> event \<Rightarrow> bool" where
  "enabled s (SelectDifficulty d) = (status s = DIFFICULTY_SELECTION)"
| "enabled s (SelectOption opt) =
     (status s = GUESSING \<and>
      (case currentRound s of None \<Rightarrow> False | Some rd \<Rightarrow> opt \<in> set (options rd)) \<and>
      selectedOption s = None)"
| "enabled s Advance = (status s = RESULT \<and> currentRound s \<noteq> None)"
| "enabled s RegenerateFact =
     (status s = RESULT \<and> currentRound s \<noteq> None \<and> isCorrect s = Some True \<and>
      \<not> isFactLoading s)"
| "enabled s (FactSettled outcome) = isFactLoading s"
| "enabled s ReturnToDifficultySelection =
     (status s \<noteq> DIFFICULTY_SELECTION \<and> status s \<noteq> LOADING)"

fun handler :: "provider \<Rightarrow> event \<Rightarrow> app_state \<Rightarrow> app_state" where
  "handler env (SelectDifficulty d) s = snd (initGame env d s)"
| "handler env (SelectOption opt) s = snd (handleGuess env opt s)"
| "handler env Advance s = nextRound env s"
| "handler env RegenerateFact s = handleRegenerateFact_request s"
| "handler env (FactSettled outcome) s = handleRegenerateFact_settled outcome s"
| "handler env ReturnToDifficultySelection s = returnToDifficultySelection s"

definition dispatch :: "provider \<Rightarrow> event \<Rightarrow> app_state \<Rightarrow> app_state" where
  "dispatch env e s = (if enabled s e then handler env e s else s)"

text \<open>A session: events in order, each with the provider behaviour it meets.\<close>

fun run :: "app_state \<Rightarrow> (provider \<times> event) list \<Rightarrow> app_state" where
  "run s [] = s"
| "run s ((env, e) # rest) = run (dispatch env e s) rest"

text \<open>
  The number of guesses along a session that were accepted and named the target of the
  round they were made in.
\<close>

definition is_correct_guess :: "app_state \<Rightarrow> event \<Rightarrow> bool" where
  "is_correct_guess s e =
     (case e of
        SelectOption opt \<Rightarrow>
          enabled s e \<and>
          (case currentRound s of
             None \<Rightarrow> False
           | Some rd \<Rightarrow> opt = commonName (targetTree rd))
      | _ \<Rightarrow> False)"

fun correct_guesses :: "app_state \<Rightarrow> (provider \<times> event) list \<Rightarrow> nat" where
  "correct_guesses s [] = 0"
| "correct_guesses s ((env, e) # rest) =
     (if is_correct_guess s e then 1 else 0) + correct_guesses (dispatch env e s) rest"

text \<open>
  What holds of every state a session reaches: the ids of the pool are pairwise distinct,
  and while the status is \<^verbatim>\<open>GUESSING\<close> or \<^verbatim>\<open>RESULT\<close> a difficulty is chosen and the target
  of the current round has the id of a specimen of the pool.
\<close>

definition round_from_pool :: "app_state \<Rightarrow> bool" where
  "round_from_pool s \<longleftrightarrow>
     distinct (map tree_id (pool s)) \<and>
     (status s = GUESSING \<or> status s = RESULT \<longrightarrow>
        difficulty s \<noteq> None \<and>
        (case currentRound s of
           None \<Rightarrow> False
         | Some rd \<Rightarrow> tree_id (targetTree rd) \<in> tree_id ` set (pool s)))"

text \<open>
  And a second one: while the status is \<^verbatim>\<open>GUESSING\<close> no choice is recorded and the current
  round has no spring image.
\<close>

definition unanswered :: "app_state \<Rightarrow> bool" where
  "unanswered s \<longleftrightarrow>
     (status s = GUESSING \<longrightarrow>
        selectedOption s = None \<and> isCorrect s = None \<and>
        (case currentRound s of None \<Rightarrow> False | Some rd \<Rightarrow> springImageUrl rd = None))"

section \<open>The globe (components/Globe.tsx)\<close>

text \<open>
  The second effect of the component owns two variables, \<^verbatim>\<open>rotation\<close> and
  \<^verbatim>\<open>animationFrameId\<close>. Beside them the record holds what the effect changes outside itself:
  the rotation held by the projection object, which \<^verbatim>\<open>projection.rotate()\<close> reads back, and
  the browser's list of frame callbacks that were requested and neither run nor cancelled
  yet, with the handle the next request will get. The increment \<open>0.25\<close> is a power of two, so the additions are exact in double
  precision for any number of frames a browser will see, and a real number stands for
  \<^verbatim>\<open>rotation\<close>.
\<close>

record globe_session =
  rotation :: real
  projection_rotate :: "real \<times> real"
  animationFrameId :: "nat option"
  requested_frames :: "nat list"
  next_handle :: nat

definition requestAnimationFrame :: "globe_session \<Rightarrow> nat \<times> globe_session" where
  "requestAnimationFrame g =
     (next_handle g,
      g\<lparr>requested_frames := requested_frames g @ [next_handle g],
        next_handle := Suc (next_handle g)\<rparr>)"

definition cancelAnimationFrame :: "nat option \<Rightarrow> globe_session \<Rightarrow> globe_session" where
  "cancelAnimationFrame h g =
     (case h of
        None \<Rightarrow> g
      | Some i \<Rightarrow> g\<lparr>requested_frames := filter (\<lambda>j. j \<noteq> i) (requested_frames g)\<rparr>)"

text \<open>
  Modelled from the spec: the projection object of the d3 library is not among the sources.
  Section 3 gives its rotation state as a ``longitude rotation angle (degrees, wraps mod
  360)'' with a ``fixed latitude tilt''. This is the reduction of an angle to the range
  from 0 to 360.
\<close>

definition wrap360 :: "real \<Rightarrow> real" where
  "wrap360 x = x - 360 * of_int \<lfloor>x / 360\<rfloor>"

text \<open>
  Modelled from the spec: \<^verbatim>\<open>projection.rotate([lambda, phi])\<close> stores the longitude reduced
  modulo 360 and the tilt as given.
\<close>

definition projection_rotate_set :: "real \<times> real \<Rightarrow> globe_session \<Rightarrow> globe_session" where
  "projection_rotate_set angles g =
     g\<lparr>projection_rotate := (wrap360 (fst angles), snd angles)\<rparr>"

text \<open>Modelled from the spec: \<^verbatim>\<open>projection.rotate()\<close> gives back what is stored.\<close>

definition projection_rotate_get :: "globe_session \<Rightarrow> real \<times> real" where
  "projection_rotate_get g = projection_rotate g"

text \<open>Lines 80 to 140, without the drawing calls, which change nothing of the session.\<close>

definition render :: "globe_session \<Rightarrow> globe_session" where
  "render g =
     (let g1 = g\<lparr>rotation := rotation g + 0.25\<rparr>;
          g2 = projection_rotate_set (rotation g1, - 15) g1;
          (h, g3) = requestAnimationFrame g2
      in g3\<lparr>animationFrameId := Some h\<rparr>)"

text \<open>
  The effect: \<^verbatim>\<open>let rotation = 0; let animationFrameId; ... render();\<close>, and the clean-up it
  returns, \<^verbatim>\<open>() => cancelAnimationFrame(animationFrameId)\<close>.
\<close>

definition start_effect :: globe_session where
  "start_effect =
     render \<lparr>rotation = 0, projection_rotate = (0, 0), animationFrameId = None,
             requested_frames = [], next_handle = 1\<rparr>"

definition cleanup :: "globe_session \<Rightarrow> globe_session" where
  "cleanup g = cancelAnimationFrame (animationFrameId g) g"

text \<open>
  One display refresh: the browser takes the callbacks requested so far and runs them;
  each of them is \<^verbatim>\<open>render\<close>.
\<close>

definition animation_frame :: "globe_session \<Rightarrow> globe_session" where
  "animation_frame g =
     (render ^^ length (requested_frames g)) (g\<lparr>requested_frames := []\<rparr>)"

definition frames :: "nat \<Rightarrow> globe_session \<Rightarrow> globe_session" where
  "frames n g = (animation_frame ^^ n) g"

text \<open>
  The orthographic projection and the spherical distance of the d3 library are not among the
  sources either; the next definitions follow section 4.3 of the spec, with the
  trigonometric functions of the reals. Coordinates are longitude and latitude in degrees.
\<close>

text \<open>Modelled from the spec: degrees as radians.\<close>

definition radians :: "real \<Rightarrow> real" where
  "radians x = x * pi / 180"

text \<open>
  Modelled from the spec: the rotation that the projection applies, ``longitudinal spin
  plus a fixed tilt''. A point is a unit vector; it is turned by the spin and then by the
  tilt, and these are its three coordinates afterwards: towards the viewer, to the right,
  and upwards.
\<close>

definition turned :: "real \<times> real \<Rightarrow> real \<times> real \<Rightarrow> real \<times> real \<times> real" where
  "turned rot point =
     (let l = radians (fst point + fst rot);
          f = radians (snd point);
          d = radians (snd rot);
          x = cos l * cos f;
          y = sin l * cos f;
          z = sin f
      in (x * cos d - z * sin d, y, z * cos d + x * sin d))"

text \<open>
  Modelled from the spec: the ``clip angle 90 degrees (points beyond the visible hemisphere
  are not drawn)''. A point lies on the visible hemisphere when, turned, it points towards
  the viewer.
\<close>

definition within_clip :: "globe_session \<Rightarrow> real \<times> real \<Rightarrow> bool" where
  "within_clip g point \<longleftrightarrow> 0 < fst (turned (projection_rotate g) point)"

text \<open>
  Modelled from the spec: \<^verbatim>\<open>projection(point)\<close>, the orthographic projection of a ``sphere of
  fixed radius, centered at the render surface's center''. The radius \<^verbatim>\<open>width / 2.2\<close> and
  the centre are those of lines 70 to 73, for the canvas of 280 by 280 pixels of lines 154
  to 158. It always returns coordinates.
\<close>

definition projection :: "globe_session \<Rightarrow> real \<times> real \<Rightarrow> (real \<times> real) option" where
  "projection g point =
     (let (towards, right, up) = turned (projection_rotate g) point
      in Some (280 / 2 + 280 / 2.2 * right, 280 / 2 - 280 / 2.2 * up))"

text \<open>
  Modelled from the spec: \<^verbatim>\<open>d3.geoDistance\<close>, the ``great-circle (geodesic) angular
  distance'' of two points, in radians.
\<close>

definition geoDistance :: "real \<times> real \<Rightarrow> real \<times> real \<Rightarrow> real" where
  "geoDistance a b =
     arccos (sin (radians (snd a)) * sin (radians (snd b))
             + cos (radians (snd a)) * cos (radians (snd b)) * cos (radians (fst b - fst a)))"

text \<open>
  Lines 113 to 119 and 122 to 127: whether the marker of a habitat is drawn, and where.
\<close>

definition marker_drawn :: "globe_session \<Rightarrow> GeoLocation \<Rightarrow> bool" where
  "marker_drawn g loc =
     (case projection g (lng loc, lat loc) of
        None \<Rightarrow> False
      | Some coords \<Rightarrow>
          (let distance =
                 geoDistance (lng loc, lat loc)
                   (- fst (projection_rotate_get g), - snd (projection_rotate_get g))
           in distance < pi / 2))"

definition marker_centre :: "globe_session \<Rightarrow> GeoLocation \<Rightarrow> (real \<times> real) option" where
  "marker_centre g loc =
     (if marker_drawn g loc then projection g (lng loc, lat loc) else None)"

text \<open>
  Line 120, \<^verbatim>\<open>const pulse = (Math.sin(Date.now() / 300) + 1) / 2\<close>, as a function of the clock
  reading in milliseconds, with the real sine for \<^verbatim>\<open>Math.sin\<close>; and the two quantities drawn
  from it, the radius of the ring (line 133) and its opacity (line 130).
\<close>

definition pulse :: "real \<Rightarrow> real" where
  "pulse now = (sin (now / 300) + 1) / 2"

definition ring_radius :: "real \<Rightarrow> real" where
  "ring_radius now = 4 + pulse now * 15"

definition ring_opacity :: "real \<Rightarrow> real" where
  "ring_opacity now = 0.4 * (1 - pulse now)"

text \<open>
  The ring stroked around a visible marker that was projected to \<open>coords\<close>, drawn when the
  clock reads \<open>now\<close>: its centre, its radius and its opacity.
\<close>

definition marker_ring :: "real \<Rightarrow> real \<times> real \<Rightarrow> (real \<times> real) \<times> real \<times> real" where
  "marker_ring now coords = (coords, ring_radius now, ring_opacity now)"

text \<open>
  A session whose loop is running: the callback requested last is the one the browser
  still holds.
\<close>

definition active :: "globe_session \<Rightarrow> bool" where
  "active g \<longleftrightarrow> (\<exists>h. animationFrameId g = Some h \<and> requested_frames g = [h])"

section \<open>Example data\<close>

text \<open>
  Concrete specimens and provider behaviours on which the theorems below are instantiated.
  The provider answers every tree-list prompt with the given data and every image prompt
  according to the season; the clock stands at 5 and both random sorts happen to leave the
  order as it is.
\<close>

definition specimen :: "string \<Rightarrow> string \<Rightarrow> TreeData" where
  "specimen ident name =
     \<lparr>tree_id = ident, commonName = name, scientificName = ''Arbor '' @ name,
      autumnDescription = name @ '' in autumn'', springDescription = name @ '' in spring'',
      habitats = [\<lparr>lat = 45, lng = 10, label = None\<rparr>], funFact = ''A fact.''\<rparr>"

definition example_provider ::
  "TreeData list \<Rightarrow> (season \<Rightarrow> string option promise) \<Rightarrow> provider" where
  "example_provider data images =
     \<lparr>generateContent_trees = (\<lambda>d. Fulfilled data),
      generateContent_image = (\<lambda>description. images),
      Date_now = (\<lambda>i. 5),
      sort_random_trees = (\<lambda>ts. ts),
      sort_random_names = (\<lambda>ns. ns)\<rparr>"

definition every_image :: "season \<Rightarrow> string option promise" where
  "every_image season = Fulfilled (Some ''AAAA'')"

definition no_spring_image :: "season \<Rightarrow> string option promise" where
  "no_spring_image season =
     (case season of Autumn \<Rightarrow> Fulfilled (Some ''AAAA'') | Spring \<Rightarrow> Rejected ProviderError)"

definition no_image :: "season \<Rightarrow> string option promise" where
  "no_image season = Rejected ProviderError"

definition forest_data :: "TreeData list" where
  "forest_data = [specimen [] ''Oak'', specimen [] ''Elm'', specimen [] ''Ash'']"

definition forest :: "TreeData list" where
  "forest =
     [specimen ''tree-5-0'' ''Oak'', specimen ''tree-5-1'' ''Elm'', specimen ''tree-5-2'' ''Ash'']"

definition twins_data :: "TreeData list" where
  "twins_data = [specimen [] ''Oak'', specimen [] ''Oak'', specimen [] ''Elm'']"

definition twins :: "TreeData list" where
  "twins =
     [specimen ''tree-5-0'' ''Oak'', specimen ''tree-5-1'' ''Oak'', specimen ''tree-5-2'' ''Elm'']"

text \<open>Three providers: one that answers everything, one without spring images, one without images.\<close>

definition calm :: provider where
  "calm = example_provider forest_data every_image"

definition frost :: provider where
  "frost = example_provider forest_data no_spring_image"

definition drought :: provider where
  "drought = example_provider forest_data no_image"

text \<open>The first round of the forest, before and after the guess ``Oak''.\<close>

definition oak_round :: "string option \<Rightarrow> GameRound" where
  "oak_round after =
     \<lparr>targetTree = specimen ''tree-5-0'' ''Oak'', options = [''Oak'', ''Elm'', ''Ash''],
      autumnImageUrl = ''data:image/png;base64,AAAA'', springImageUrl = after\<rparr>"

definition guessing_oak :: app_state where
  "guessing_oak =
     \<lparr>status = GUESSING, difficulty = Some EASY, currentRound = Some (oak_round None),
      pool = forest, score = 0, selectedOption = None, isCorrect = None,
      loadingStep = ''Isolating seasonal markers for the next specimen...'',
      isFactLoading = False\<rparr>"

definition result_oak :: "string option \<Rightarrow> app_state" where
  "result_oak after =
     \<lparr>status = RESULT, difficulty = Some EASY, currentRound = Some (oak_round after),
      pool = forest, score = 1, selectedOption = Some ''Oak'', isCorrect = Some True,
      loadingStep = ''Waiting for the first light of spring...'',
      isFactLoading = False\<rparr>"

text \<open>The second round of the forest, and the session that plays both rounds correctly.\<close>

definition elm_round :: "string option \<Rightarrow> GameRound" where
  "elm_round after =
     \<lparr>targetTree = specimen ''tree-5-1'' ''Elm'', options = [''Elm'', ''Oak'', ''Ash''],
      autumnImageUrl = ''data:image/png;base64,AAAA'', springImageUrl = after\<rparr>"

definition guessing_elm :: app_state where
  "guessing_elm =
     \<lparr>status = GUESSING, difficulty = Some EASY, currentRound = Some (elm_round None),
      pool = forest, score = 1, selectedOption = None, isCorrect = None,
      loadingStep = ''Isolating seasonal markers for the next specimen...'',
      isFactLoading = False\<rparr>"

definition result_elm :: "string option \<Rightarrow> app_state" where
  "result_elm after =
     \<lparr>status = RESULT, difficulty = Some EASY, currentRound = Some (elm_round after),
      pool = forest, score = 2, selectedOption = Some ''Elm'', isCorrect = Some True,
      loadingStep = ''Waiting for the first light of spring...'',
      isFactLoading = False\<rparr>"

definition two_rounds :: "(provider \<times> event) list" where
  "two_rounds =
     [(calm, SelectDifficulty EASY), (calm, SelectOption ''Oak''), (calm, Advance),
      (calm, SelectOption ''Elm'')]"

section \<open>Ids of a fetched pool\<close>

lemma digit_char_not_dash: "d < 10 \<Longrightarrow> digit_char d \<noteq> CHR ''-''"
proof
  assume d: "d < 10" and eq: "digit_char d = CHR ''-''"
  from eq have "of_char (digit_char d) = (of_char (CHR ''-'') :: nat)" by simp
  with d show False by (simp add: digit_char_def)
qed

lemma digit_char_inj: "a < 10 \<Longrightarrow> b < 10 \<Longrightarrow> digit_char a = digit_char b \<Longrightarrow> a = b"
proof -
  assume a: "a < 10" and b: "b < 10" and eq: "digit_char a = digit_char b"
  from eq have "(of_char (digit_char a) :: nat) = of_char (digit_char b)" by simp
  with a b show "a = b" by (simp add: digit_char_def)
qed

lemma decimal_not_Nil: "decimal n \<noteq> []"
  by (subst decimal.simps) simp

lemma dash_notin_decimal: "CHR ''-'' \<notin> set (decimal n)"
proof (induction n rule: decimal.induct)
  case (1 n)
  show ?case
  proof (cases "n < 10")
    case True
    then show ?thesis
      using digit_char_not_dash [of n] by (subst decimal.simps) auto
  next
    case False
    have "n mod 10 < 10" by simp
    then have "digit_char (n mod 10) \<noteq> CHR ''-''" by (rule digit_char_not_dash)
    with False "1.IH" show ?thesis
      by (subst decimal.simps) auto
  qed
qed

lemma decimal_inj: "decimal m = decimal n \<Longrightarrow> m = n"
proof (induction m arbitrary: n rule: decimal.induct)
  case (1 m)
  show ?case
  proof (cases "m < 10")
    case m: True
    show ?thesis
    proof (cases "n < 10")
      case True
      with m "1.prems" show ?thesis
        by (simp add: decimal.simps [of m] decimal.simps [of n] digit_char_inj)
    next
      case False
      with m "1.prems" decimal_not_Nil [of "n div 10"] show ?thesis
        by (auto simp add: decimal.simps [of m] decimal.simps [of n])
    qed
  next
    case m: False
    show ?thesis
    proof (cases "n < 10")
      case True
      with m "1.prems" decimal_not_Nil [of "m div 10"] show ?thesis
        by (auto simp add: decimal.simps [of m] decimal.simps [of n])
    next
      case False
      with m "1.prems" have d: "decimal (m div 10) = decimal (n div 10)"
        and r: "digit_char (m mod 10) = digit_char (n mod 10)"
        by (simp_all add: decimal.simps [of m] decimal.simps [of n])
      from d m have "m div 10 = n div 10" by (rule "1.IH" [rotated])
      moreover from r have "m mod 10 = n mod 10" by (simp add: digit_char_inj)
      ultimately show ?thesis by (metis div_mult_mod_eq)
    qed
  qed
qed

text \<open>Two ids made by the template agree only when they were made for the same position.\<close>

lemma id_template_inj: "id_template a i = id_template b j \<Longrightarrow> i = j"
proof -
  assume "id_template a i = id_template b j"
  then have "decimal a @ CHR ''-'' # decimal i = decimal b @ CHR ''-'' # decimal j"
    by (simp add: id_template_def)
  then have "decimal i = decimal j"
    by (simp add: append_Cons_eq_iff dash_notin_decimal)
  then show ?thesis by (rule decimal_inj)
qed

lemma assign_ids_index:
  "t \<in> set (assign_ids env k ts) \<Longrightarrow> \<exists>a i. k \<le> i \<and> tree_id t = id_template a i"
proof (induction ts arbitrary: k)
  case Nil
  then show ?case by simp
next
  case (Cons u us)
  from Cons.prems consider
    "t = u\<lparr>tree_id := id_template (Date_now env k) k\<rparr>"
    | "t \<in> set (assign_ids env (Suc k) us)" by auto
  then show ?case
  proof cases
    case 1
    then show ?thesis by auto
  next
    case 2
    then obtain a i where "Suc k \<le> i" "tree_id t = id_template a i"
      using Cons.IH by blast
    then show ?thesis by (metis Suc_leD)
  qed
qed

lemma distinct_assign_ids: "distinct (map tree_id (assign_ids env k ts))"
proof (induction ts arbitrary: k)
  case Nil
  then show ?case by simp
next
  case (Cons u us)
  have "id_template (Date_now env k) k \<notin> tree_id ` set (assign_ids env (Suc k) us)"
  proof
    assume "id_template (Date_now env k) k \<in> tree_id ` set (assign_ids env (Suc k) us)"
    then obtain t where t: "t \<in> set (assign_ids env (Suc k) us)"
      and eq: "tree_id t = id_template (Date_now env k) k" by auto
    from assign_ids_index [OF t] obtain a i where i: "Suc k \<le> i"
      and "tree_id t = id_template a i" by blast
    with eq have "id_template a i = id_template (Date_now env k) k" by simp
    then have "i = k" by (rule id_template_inj)
    with i show False by simp
  qed
  with Cons.IH [of "Suc k"] show ?case by simp
qed

lemma fetchNewTrees_distinct:
  "fetchNewTrees env d = Fulfilled trees \<Longrightarrow> distinct (map tree_id trees)"
  by (auto simp: fetchNewTrees_def distinct_assign_ids split: promise.splits)

lemma decimal_digit: "n < 10 \<Longrightarrow> decimal n = [digit_char n]"
  by (subst decimal.simps) simp

lemma fetch_forest:
  "fetchNewTrees (example_provider forest_data images) d = Fulfilled forest"
  by (simp add: fetchNewTrees_def example_provider_def forest_data_def forest_def specimen_def
      id_template_def decimal_digit digit_char_def char_of_def bit_Suc bit_0)

lemma fetch_twins:
  "fetchNewTrees (example_provider twins_data images) d = Fulfilled twins"
  by (simp add: fetchNewTrees_def example_provider_def twins_data_def twins_def specimen_def
      id_template_def decimal_digit digit_char_def char_of_def bit_Suc bit_0)

lemma example_sorts_permute: "sorts_permute (example_provider data images)"
  by (simp add: sorts_permute_def example_provider_def)

section \<open>The options of a round\<close>

lemma length_filter_other:
  "distinct (map f xs) \<Longrightarrow> x \<in> set xs \<Longrightarrow>
     length (filter (\<lambda>t. f t \<noteq> f x) xs) = length xs - 1"
proof (induction xs)
  case Nil
  then show ?case by simp
next
  case (Cons y ys)
  show ?case
  proof (cases "f y = f x")
    case True
    with Cons.prems have "\<forall>t\<in>set ys. f t \<noteq> f x"
      by (metis distinct.simps(2) image_eqI list.simps(9) set_map)
    then have "filter (\<lambda>t. f t \<noteq> f x) ys = ys" by (simp add: filter_id_conv)
    with True show ?thesis by simp
  next
    case False
    with Cons.prems have x: "x \<in> set ys" by auto
    then have "ys \<noteq> []" by auto
    then have "0 < length ys" by simp
    with False Cons.IH x Cons.prems show ?thesis by simp
  qed
qed

lemma count_list_distinct: "distinct xs \<Longrightarrow> x \<in> set xs \<Longrightarrow> count_list xs x = 1"
  by (induction xs) (auto simp: count_list_0_iff)

lemma length_round_options:
  assumes "sorts_permute env" "distinct (map tree_id currentPool)" "target \<in> set currentPool"
  shows "length (round_options env target currentPool) = min (length currentPool) 3"
proof -
  let ?F = "filter (\<lambda>t. tree_id t \<noteq> tree_id target) currentPool"
  from assms(1) have "mset (sort_random_trees env ?F) = mset ?F"
    by (simp add: sorts_permute_def)
  then have "length (sort_random_trees env ?F) = length ?F" by (rule mset_eq_length)
  also from assms(2,3) have "\<dots> = length currentPool - 1" by (rule length_filter_other)
  finally have l: "length (sort_random_trees env ?F) = length currentPool - 1" .
  have "length (sort_random_names env ns) = length ns" for ns
  proof -
    from assms(1) have "mset (sort_random_names env ns) = mset ns"
      by (simp add: sorts_permute_def)
    then show ?thesis by (rule mset_eq_length)
  qed
  then have "length (round_options env target currentPool) =
      Suc (min (length currentPool - 1) 2)"
    using l by (simp add: round_options_def sampled_distractors_def Let_def)
  moreover from assms(3) have "0 < length currentPool" by (cases currentPool) auto
  ultimately show ?thesis by arith
qed

lemma target_in_round_options:
  assumes "sorts_permute env"
  shows "commonName target \<in> set (round_options env target currentPool)"
proof -
  have "set (sort_random_names env ns) = set ns" for ns
  proof -
    from assms have "mset (sort_random_names env ns) = mset ns"
      by (simp add: sorts_permute_def)
    then show ?thesis by (rule mset_eq_setD)
  qed
  then show ?thesis by (simp add: round_options_def sampled_distractors_def Let_def)
qed

lemma distinct_round_options:
  assumes "sorts_permute env" "distinct (map commonName currentPool)" "target \<in> set currentPool"
  shows "distinct (round_options env target currentPool)"
proof -
  let ?F = "filter (\<lambda>t. tree_id t \<noteq> tree_id target) currentPool"
  let ?Y = "sort_random_trees env ?F"
  from assms(1) have Y: "mset ?Y = mset ?F" by (simp add: sorts_permute_def)
  from assms(2) have "distinct (map commonName ?F)" by (rule distinct_map_filter)
  moreover from Y have "mset (map commonName ?Y) = mset (map commonName ?F)" by simp
  ultimately have "distinct (map commonName ?Y)" by (metis mset_eq_imp_distinct_iff)
  then have "distinct (take 2 (map commonName ?Y))" by (rule distinct_take)
  then have d: "distinct (map commonName (take 2 ?Y))" by (simp add: take_map)
  have "commonName target \<notin> commonName ` set (take 2 ?Y)"
  proof
    assume "commonName target \<in> commonName ` set (take 2 ?Y)"
    then obtain t where t: "t \<in> set (take 2 ?Y)" and n: "commonName t = commonName target"
      by auto
    from t have "t \<in> set ?Y" by (rule in_set_takeD)
    with Y have "t \<in> set ?F" by (metis mset_eq_setD)
    then have tp: "t \<in> set currentPool" and "tree_id t \<noteq> tree_id target" by auto
    then have "t \<noteq> target" by auto
    moreover from assms(2) have "inj_on commonName (set currentPool)"
      by (simp add: distinct_map)
    ultimately show False using tp assms(3) n by (auto dest: inj_onD)
  qed
  with d have "distinct (commonName target # map commonName (take 2 ?Y))" by simp
  moreover from assms(1) have "\<And>ns. mset (sort_random_names env ns) = mset ns"
    by (simp add: sorts_permute_def)
  ultimately show ?thesis
    unfolding round_options_def sampled_distractors_def Let_def by (metis mset_eq_imp_distinct_iff)
qed

lemma startRound_fulfilled:
  "generateTreeImage env (autumnDescription target) Autumn = Fulfilled img \<Longrightarrow>
   startRound env (Some target) currentPool s =
     (Fulfilled (),
      s\<lparr>status := GUESSING,
        loadingStep := ''Isolating seasonal markers for the next specimen...'',
        currentRound :=
          Some \<lparr>targetTree = target, options = round_options env target currentPool,
                autumnImageUrl = img, springImageUrl = None\<rparr>,
        selectedOption := None,
        isCorrect := None\<rparr>)"
  by (simp add: startRound_def startRound_try_def startRound_awaiting_def)

lemma startRound_rejected:
  "generateTreeImage env (autumnDescription target) Autumn = Rejected e \<Longrightarrow>
   startRound env (Some target) currentPool s =
     (Fulfilled (),
      s\<lparr>status := ERROR,
        loadingStep := ''Isolating seasonal markers for the next specimen...''\<rparr>)"
  by (simp add: startRound_def startRound_try_def startRound_awaiting_def)

lemma startRound_undefined:
  "startRound env None currentPool s =
     (Fulfilled (),
      s\<lparr>status := ERROR,
        loadingStep := ''Isolating seasonal markers for the next specimen...''\<rparr>)"
  by (simp add: startRound_def startRound_try_def startRound_awaiting_def)

lemma count_list_round_options:
  assumes "sorts_permute env"
  shows "count_list (round_options env target currentPool) x =
     count_list (commonName target # map commonName (sampled_distractors env target currentPool)) x"
proof -
  let ?ns = "commonName target # map commonName (sampled_distractors env target currentPool)"
  from assms have "mset (sort_random_names env ?ns) = mset ?ns"
    by (simp add: sorts_permute_def)
  then have "count (mset (sort_random_names env ?ns)) x = count (mset ?ns) x" by simp
  then have "count_list (sort_random_names env ?ns) x = count_list ?ns x"
    by (simp only: count_mset)
  then show ?thesis by (simp add: round_options_def Let_def)
qed

lemma distinct_round_options_iff:
  assumes "sorts_permute env"
  shows "distinct (round_options env target currentPool) \<longleftrightarrow>
     distinct (commonName target # map commonName (sampled_distractors env target currentPool))"
proof -
  let ?ns = "commonName target # map commonName (sampled_distractors env target currentPool)"
  from assms have "mset (sort_random_names env ?ns) = mset ?ns"
    by (simp add: sorts_permute_def)
  then have "distinct (sort_random_names env ?ns) = distinct ?ns"
    by (rule mset_eq_imp_distinct_iff)
  then show ?thesis by (simp add: round_options_def Let_def)
qed

lemma count_target_iff:
  assumes "sorts_permute env"
  shows "count_list (round_options env target currentPool) (commonName target) = 1 \<longleftrightarrow>
     commonName target \<notin> commonName ` set (sampled_distractors env target currentPool)"
  by (simp add: count_list_round_options [OF assms] count_list_0_iff)

lemma sampled_distractors_subset:
  assumes "sorts_permute env" "t \<in> set (sampled_distractors env target currentPool)"
  shows "t \<in> set currentPool \<and> tree_id t \<noteq> tree_id target"
proof -
  let ?F = "filter (\<lambda>t. tree_id t \<noteq> tree_id target) currentPool"
  from assms(2) have "t \<in> set (sort_random_trees env ?F)"
    unfolding sampled_distractors_def by (rule in_set_takeD)
  moreover from assms(1) have "mset (sort_random_trees env ?F) = mset ?F"
    by (simp add: sorts_permute_def)
  then have "set (sort_random_trees env ?F) = set ?F" by (rule mset_eq_setD)
  ultimately show ?thesis by simp
qed

lemma count_target_one:
  assumes "sorts_permute env"
    and "\<forall>t\<in>set currentPool. tree_id t \<noteq> tree_id target \<longrightarrow> commonName t \<noteq> commonName target"
  shows "count_list (round_options env target currentPool) (commonName target) = 1"
proof -
  have "commonName target \<notin> commonName ` set (sampled_distractors env target currentPool)"
  proof
    assume "commonName target \<in> commonName ` set (sampled_distractors env target currentPool)"
    then obtain t where t: "t \<in> set (sampled_distractors env target currentPool)"
      and n: "commonName t = commonName target" by auto
    from sampled_distractors_subset [OF assms(1) t] assms(2) n show False by blast
  qed
  then show ?thesis using count_target_iff [OF assms(1), of target currentPool] by blast
qed

text \<open>
  Claim C1, as the code has it. Let a pool be fetched, let the target be one of its
  specimens, and let the autumn image arrive. Then the round that \<^verbatim>\<open>startRound\<close> sets up
  has that target and \<open>min n 3\<close> option labels, \<open>n\<close> being the size of the pool, and the
  target's common name is among them. The program removes the target from the candidates
  by id and never compares names. So exactly one label equals the target's common name if
  and only if no sampled distractor bears that name, which is the case whenever no other
  specimen of the pool does; and the labels are pairwise distinct if and only if the names
  of the target and of the sampled distractors are, which is the case whenever the common
  names of the pool are pairwise distinct.
\<close>

theorem startRound_options:
  assumes "sorts_permute env"
    and "fetchNewTrees env' d = Fulfilled currentPool"
    and "target \<in> set currentPool"
    and "generateTreeImage env (autumnDescription target) Autumn = Fulfilled img"
  shows "\<exists>rd. currentRound (snd (startRound env (Some target) currentPool s)) = Some rd \<and>
           targetTree rd = target \<and>
           length (options rd) = min (length currentPool) 3 \<and>
           commonName target \<in> set (options rd) \<and>
           (count_list (options rd) (commonName target) = 1 \<longleftrightarrow>
              commonName target
                \<notin> commonName ` set (sampled_distractors env target currentPool)) \<and>
           (distinct (options rd) \<longleftrightarrow>
              distinct (commonName target
                # map commonName (sampled_distractors env target currentPool))) \<and>
           ((\<forall>t\<in>set currentPool.
               tree_id t \<noteq> tree_id target \<longrightarrow> commonName t \<noteq> commonName target) \<longrightarrow>
              count_list (options rd) (commonName target) = 1) \<and>
           (distinct (map commonName currentPool) \<longrightarrow> distinct (options rd))"
proof -
  let ?opts = "round_options env target currentPool"
  from assms(2) have ids: "distinct (map tree_id currentPool)" by (rule fetchNewTrees_distinct)
  from assms(1) ids assms(3) have len: "length ?opts = min (length currentPool) 3"
    by (rule length_round_options)
  from assms(1) have mem: "commonName target \<in> set ?opts" by (rule target_in_round_options)
  note c = count_target_iff [OF assms(1), of target currentPool]
  note d = distinct_round_options_iff [OF assms(1), of target currentPool]
  have c1: "count_list ?opts (commonName target) = 1"
    if "\<forall>t\<in>set currentPool.
          tree_id t \<noteq> tree_id target \<longrightarrow> commonName t \<noteq> commonName target"
    using assms(1) that by (rule count_target_one)
  have d1: "distinct ?opts" if "distinct (map commonName currentPool)"
    using assms(1) that assms(3) by (rule distinct_round_options)
  let ?rd = "\<lparr>targetTree = target, options = ?opts, autumnImageUrl = img,
      springImageUrl = None\<rparr>"
  have "currentRound (snd (startRound env (Some target) currentPool s)) = Some ?rd"
    by (simp add: startRound_fulfilled [OF assms(4)])
  moreover have "targetTree ?rd = target" and "options ?rd = ?opts" by simp_all
  ultimately show ?thesis using len mem c d c1 d1
    by (intro exI [of _ ?rd]) (simp only: simp_thms; blast)
qed

theorem startRound_options_witness:
  "sorts_permute (example_provider forest_data every_image) \<and>
   fetchNewTrees (example_provider forest_data every_image) EASY = Fulfilled forest \<and>
   specimen ''tree-5-1'' ''Elm'' \<in> set forest \<and>
   generateTreeImage (example_provider forest_data every_image)
     (autumnDescription (specimen ''tree-5-1'' ''Elm'')) Autumn
     = Fulfilled ''data:image/png;base64,AAAA'' \<and>
   distinct (map commonName forest) \<and>
   (\<exists>rd. currentRound (snd (startRound (example_provider forest_data every_image)
             (Some (specimen ''tree-5-1'' ''Elm'')) forest initial_state)) = Some rd \<and>
      length (options rd) = 3 \<and> distinct (options rd) \<and>
      count_list (options rd) ''Elm'' = 1)"
proof -
  let ?env = "example_provider forest_data every_image"
  let ?elm = "specimen ''tree-5-1'' ''Elm''"
  have p: "sorts_permute ?env" by (rule example_sorts_permute)
  have f: "fetchNewTrees ?env EASY = Fulfilled forest" by (rule fetch_forest)
  have m: "?elm \<in> set forest" by (simp add: forest_def)
  have g: "generateTreeImage ?env (autumnDescription ?elm) Autumn
      = Fulfilled ''data:image/png;base64,AAAA''"
    by (simp add: generateTreeImage_def example_provider_def every_image_def)
  have n: "distinct (map commonName forest)" by (simp add: forest_def specimen_def)
  have o: "\<forall>t\<in>set forest. tree_id t \<noteq> tree_id ?elm \<longrightarrow> commonName t \<noteq> commonName ?elm"
    by (simp add: forest_def specimen_def)
  have l: "length forest = 3" by (simp add: forest_def)
  have c: "commonName ?elm = ''Elm''" by (simp add: specimen_def)
  from startRound_options [OF p f m g, of initial_state] n o l c
  obtain rd where
    "currentRound (snd (startRound ?env (Some ?elm) forest initial_state)) = Some rd"
    "length (options rd) = 3" "distinct (options rd)" "count_list (options rd) ''Elm'' = 1"
    by auto
  with p f m g n show ?thesis by blast
qed

theorem startRound_options_counterexample:
  "sorts_permute (example_provider twins_data every_image) \<and>
   fetchNewTrees (example_provider twins_data every_image) EASY = Fulfilled twins \<and>
   map_option options
     (currentRound (snd (startRound (example_provider twins_data every_image)
        (first_element twins) twins initial_state)))
     = Some [''Oak'', ''Oak'', ''Elm''] \<and>
   \<not> distinct [''Oak'', ''Oak'', ''Elm'']"
proof -
  let ?env = "example_provider twins_data every_image"
  have "generateTreeImage ?env (autumnDescription (specimen ''tree-5-0'' ''Oak'')) Autumn
      = Fulfilled ''data:image/png;base64,AAAA''"
    by (simp add: generateTreeImage_def example_provider_def every_image_def)
  then have "startRound ?env (first_element twins) twins initial_state =
     (Fulfilled (),
      initial_state\<lparr>status := GUESSING,
        loadingStep := ''Isolating seasonal markers for the next specimen...'',
        currentRound :=
          Some \<lparr>targetTree = specimen ''tree-5-0'' ''Oak'',
                options = round_options ?env (specimen ''tree-5-0'' ''Oak'') twins,
                autumnImageUrl = ''data:image/png;base64,AAAA'', springImageUrl = None\<rparr>,
        selectedOption := None,
        isCorrect := None\<rparr>)"
    by (simp add: twins_def startRound_fulfilled)
  moreover have "round_options ?env (specimen ''tree-5-0'' ''Oak'') twins
      = [''Oak'', ''Oak'', ''Elm'']"
    by (simp add: round_options_def sampled_distractors_def example_provider_def twins_def specimen_def)
  ultimately show ?thesis
    by (simp add: example_sorts_permute fetch_twins)
qed

section \<open>The handlers, field by field\<close>

lemma startRound_cases:
  obtains (undefined) "target = None"
      "startRound env target currentPool s =
         (Fulfilled (), s\<lparr>status := ERROR,
            loadingStep := ''Isolating seasonal markers for the next specimen...''\<rparr>)"
    | (rejected) tgt e where "target = Some tgt"
      "generateTreeImage env (autumnDescription tgt) Autumn = Rejected e"
      "startRound env target currentPool s =
         (Fulfilled (), s\<lparr>status := ERROR,
            loadingStep := ''Isolating seasonal markers for the next specimen...''\<rparr>)"
    | (fulfilled) tgt img where "target = Some tgt"
      "generateTreeImage env (autumnDescription tgt) Autumn = Fulfilled img"
      "startRound env target currentPool s =
         (Fulfilled (),
          s\<lparr>status := GUESSING,
            loadingStep := ''Isolating seasonal markers for the next specimen...'',
            currentRound :=
              Some \<lparr>targetTree = tgt, options = round_options env tgt currentPool,
                    autumnImageUrl = img, springImageUrl = None\<rparr>,
            selectedOption := None,
            isCorrect := None\<rparr>)"
proof (cases target)
  case None
  then show ?thesis using undefined startRound_undefined by simp
next
  case (Some tgt)
  show ?thesis
  proof (cases "generateTreeImage env (autumnDescription tgt) Autumn")
    case (Fulfilled img)
    with Some show ?thesis using fulfilled startRound_fulfilled by simp
  next
    case (Rejected e)
    with Some show ?thesis using rejected startRound_rejected by simp
  qed
qed

lemma startRound_frame:
  "fst (startRound env target currentPool s) = Fulfilled ()"
  "score (snd (startRound env target currentPool s)) = score s"
  "pool (snd (startRound env target currentPool s)) = pool s"
  "difficulty (snd (startRound env target currentPool s)) = difficulty s"
  "isFactLoading (snd (startRound env target currentPool s)) = isFactLoading s"
  by (cases env target currentPool s rule: startRound_cases; simp)+

lemma initGame_rejected:
  "fetchNewTrees env d = Rejected e \<Longrightarrow>
   initGame env d s =
     (Fulfilled (),
      s\<lparr>difficulty := Some d, status := ERROR,
        loadingStep := ''Stepping onto the '' @ Difficulty_toLowerCase d @ '' trail...''\<rparr>)"
  by (simp add: initGame_def initGame_try_def)

lemma initGame_fulfilled:
  "fetchNewTrees env d = Fulfilled trees \<Longrightarrow>
   initGame env d s =
     startRound env (first_element trees) trees
       (s\<lparr>difficulty := Some d, status := LOADING,
          loadingStep := ''Stepping onto the '' @ Difficulty_toLowerCase d @ '' trail...'',
          pool := trees\<rparr>)"
  by (cases env "first_element trees" trees "s\<lparr>difficulty := Some d, status := LOADING,
          loadingStep := ''Stepping onto the '' @ Difficulty_toLowerCase d @ '' trail...'',
          pool := trees\<rparr>" rule: startRound_cases)
     (simp_all add: initGame_def initGame_try_def)

lemma initGame_frame:
  "fst (initGame env d s) = Fulfilled ()"
  "score (snd (initGame env d s)) = score s"
  "difficulty (snd (initGame env d s)) = Some d"
  "isFactLoading (snd (initGame env d s)) = isFactLoading s"
  by (cases "fetchNewTrees env d"; simp add: initGame_rejected initGame_fulfilled startRound_frame)+

lemma nextRound_score: "score (nextRound env s) = score s"
  by (simp add: nextRound_def startRound_frame initGame_frame split: option.splits)

lemma handleGuess_score:
  "score (snd (handleGuess env choice s)) =
     score s + (case currentRound s of
                  None \<Rightarrow> 0
                | Some rd \<Rightarrow> if choice = commonName (targetTree rd) then 1 else 0)"
  by (simp add: handleGuess_def Let_def split: option.splits promise.splits)

lemma dispatch_score:
  "score (dispatch env e s) = score s + (if is_correct_guess s e then 1 else 0)"
proof (cases e)
  case (SelectOption opt)
  then show ?thesis
    by (auto simp add: dispatch_def is_correct_guess_def handleGuess_score split: option.splits)
next
  case (FactSettled outcome)
  then show ?thesis
    by (simp add: dispatch_def is_correct_guess_def handleRegenerateFact_settled_def
        split: promise.splits)
qed (simp_all add: dispatch_def is_correct_guess_def initGame_frame nextRound_score
      handleRegenerateFact_request_def returnToDifficultySelection_def)

lemma run_score: "score (run s steps) = score s + correct_guesses s steps"
proof (induction steps arbitrary: s)
  case Nil
  show ?case by simp
next
  case (Cons step steps)
  obtain env e where step: "step = (env, e)" by (cases step)
  show ?case by (simp add: step Cons.IH dispatch_score)
qed

text \<open>
  Claim C4. Along any session the score grows by exactly the number of accepted guesses
  that name the target of their round (the comparison is equality of strings); so a session
  that starts with score 0 and contains \<open>k\<close> correct guesses ends with score \<open>k\<close>. Each
  accepted guess that names the target adds one, and a guess that differs from the target's
  common name leaves the score as it is.
\<close>

theorem score_counts_correct_guesses:
  "(score s = 0 \<longrightarrow> score (run s steps) = correct_guesses s steps) \<and>
   (enabled t (SelectOption right) \<and> currentRound t = Some rd \<and>
    right = commonName (targetTree rd) \<longrightarrow>
      score (dispatch env (SelectOption right) t) = score t + 1) \<and>
   (currentRound t = Some rd \<and> wrong \<noteq> commonName (targetTree rd) \<longrightarrow>
      score (snd (handleGuess env wrong t)) = score t \<and>
      score (dispatch env (SelectOption wrong) t) = score t)"
proof (intro conjI impI)
  assume "score s = 0"
  then show "score (run s steps) = correct_guesses s steps" by (simp add: run_score)
next
  assume "enabled t (SelectOption right) \<and> currentRound t = Some rd \<and>
    right = commonName (targetTree rd)"
  then have "enabled t (SelectOption right)" and "currentRound t = Some rd"
    and "right = commonName (targetTree rd)" by blast+
  then have "is_correct_guess t (SelectOption right)"
    by (simp add: is_correct_guess_def del: enabled.simps)
  then show "score (dispatch env (SelectOption right) t) = score t + 1"
    by (simp add: dispatch_score)
next
  assume "currentRound t = Some rd \<and> wrong \<noteq> commonName (targetTree rd)"
  then show "score (snd (handleGuess env wrong t)) = score t"
    and "score (dispatch env (SelectOption wrong) t) = score t"
    by (simp_all add: handleGuess_score dispatch_score is_correct_guess_def)
qed

section \<open>The example session\<close>

lemma generateTreeImage_example:
  "generateTreeImage (example_provider data every_image) description season
     = Fulfilled ''data:image/png;base64,AAAA''"
  "generateTreeImage (example_provider data no_spring_image) description Autumn
     = Fulfilled ''data:image/png;base64,AAAA''"
  "generateTreeImage (example_provider data no_spring_image) description Spring
     = Rejected ProviderError"
  "generateTreeImage (example_provider data no_image) description season
     = Rejected ProviderError"
  by (simp_all add: generateTreeImage_def example_provider_def every_image_def
      no_spring_image_def no_image_def)

lemma round_options_forest:
  "round_options (example_provider data images) (specimen ''tree-5-0'' ''Oak'') forest
     = [''Oak'', ''Elm'', ''Ash'']"
  by (simp add: round_options_def sampled_distractors_def example_provider_def forest_def specimen_def)

lemma select_easy_calm: "dispatch calm (SelectDifficulty EASY) initial_state = guessing_oak"
  by (simp add: dispatch_def initGame_def initGame_try_def calm_def fetch_forest
      initial_state_def guessing_oak_def oak_round_def
      startRound_fulfilled [OF generateTreeImage_example(1)] round_options_forest
      forest_def [THEN arg_cong [of _ _ first_element]] )

lemma guess_oak_calm:
  "dispatch calm (SelectOption ''Oak'') guessing_oak
     = result_oak (Some ''data:image/png;base64,AAAA'')"
  by (simp add: dispatch_def handleGuess_def calm_def guessing_oak_def result_oak_def
      oak_round_def generateTreeImage_example specimen_def)

lemma guess_oak_frost:
  "dispatch frost (SelectOption ''Oak'') guessing_oak = result_oak None"
  by (simp add: dispatch_def handleGuess_def frost_def guessing_oak_def result_oak_def
      oak_round_def generateTreeImage_example specimen_def)

section \<open>Returning to the difficulty selection\<close>

text \<open>
  Claim C2, as the code has it. The return control only sets the status: in every state the
  handler leads to the difficulty selection and leaves the pool, the current round, the
  score and every other cell as they were. In no continuation of the session does the
  score fall below the value it had. The control is part of the main view, so the event has
  no effect while the status is \<^verbatim>\<open>LOADING\<close>.
\<close>

theorem returnToDifficultySelection_retains:
  "status (returnToDifficultySelection s) = DIFFICULTY_SELECTION \<and>
   pool (returnToDifficultySelection s) = pool s \<and>
   currentRound (returnToDifficultySelection s) = currentRound s \<and>
   score (returnToDifficultySelection s) = score s \<and>
   difficulty (returnToDifficultySelection s) = difficulty s \<and>
   selectedOption (returnToDifficultySelection s) = selectedOption s \<and>
   isCorrect (returnToDifficultySelection s) = isCorrect s \<and>
   loadingStep (returnToDifficultySelection s) = loadingStep s \<and>
   isFactLoading (returnToDifficultySelection s) = isFactLoading s \<and>
   score s \<le> score (run (returnToDifficultySelection s) steps) \<and>
   dispatch env ReturnToDifficultySelection s =
     (if status s = DIFFICULTY_SELECTION \<or> status s = LOADING then s
      else returnToDifficultySelection s)"
proof -
  have "score (returnToDifficultySelection s) = score s"
    by (simp add: returnToDifficultySelection_def)
  then have "score s \<le> score (run (returnToDifficultySelection s) steps)"
    by (simp add: run_score)
  then show ?thesis by (simp add: returnToDifficultySelection_def dispatch_def)
qed

theorem returnToDifficultySelection_counterexample:
  "run initial_state
     [(calm, SelectDifficulty EASY), (calm, SelectOption ''Oak'')]
     = result_oak (Some ''data:image/png;base64,AAAA'') \<and>
   score (returnToDifficultySelection (result_oak (Some ''data:image/png;base64,AAAA''))) = 1 \<and>
   pool (returnToDifficultySelection (result_oak (Some ''data:image/png;base64,AAAA''))) = forest \<and>
   forest \<noteq> [] \<and>
   currentRound (returnToDifficultySelection (result_oak (Some ''data:image/png;base64,AAAA'')))
     = Some (oak_round (Some ''data:image/png;base64,AAAA''))"
  by (simp add: select_easy_calm guess_oak_calm returnToDifficultySelection_def result_oak_def
      forest_def)

section \<open>One guess per round\<close>

text \<open>
  Claim C3. Once a choice is recorded, a further option click changes nothing: the option
  buttons are disabled while \<^verbatim>\<open>selectedOption\<close> is not null, so the event does not reach
  \<^verbatim>\<open>handleGuess\<close> and the whole state, with the recorded choice, the score and the round,
  stays as it is. And an accepted click records its choice, so that every click after it is
  ignored.
\<close>

theorem second_guess_ignored:
  "(selectedOption s \<noteq> None \<longrightarrow> dispatch env (SelectOption choice) s = s) \<and>
   (enabled s (SelectOption choice) \<longrightarrow>
      selectedOption (dispatch env (SelectOption choice) s) = Some choice \<and>
      dispatch env' (SelectOption choice') (dispatch env (SelectOption choice) s)
        = dispatch env (SelectOption choice) s)"
proof -
  have ignored: "dispatch e (SelectOption c) t = t" if "selectedOption t \<noteq> None" for e c t
    using that by (auto simp add: dispatch_def)
  have recorded: "selectedOption (dispatch env (SelectOption choice) s) = Some choice"
    if "enabled s (SelectOption choice)"
    using that
    by (auto simp add: dispatch_def handleGuess_def Let_def split: option.splits promise.splits)
  show ?thesis
  proof (intro conjI impI)
    assume "selectedOption s \<noteq> None"
    then show "dispatch env (SelectOption choice) s = s" by (rule ignored)
  next
    assume "enabled s (SelectOption choice)"
    then show "selectedOption (dispatch env (SelectOption choice) s) = Some choice"
      by (rule recorded)
  next
    assume "enabled s (SelectOption choice)"
    then have "selectedOption (dispatch env (SelectOption choice) s) \<noteq> None"
      by (simp add: recorded)
    then show "dispatch env' (SelectOption choice') (dispatch env (SelectOption choice) s)
        = dispatch env (SelectOption choice) s"
      by (rule ignored)
  qed
qed

theorem second_guess_ignored_witness:
  "selectedOption (guessing_oak\<lparr>selectedOption := Some ''Oak''\<rparr>) \<noteq> None \<and>
   dispatch calm (SelectOption ''Elm'') (guessing_oak\<lparr>selectedOption := Some ''Oak''\<rparr>)
     = guessing_oak\<lparr>selectedOption := Some ''Oak''\<rparr> \<and>
   enabled guessing_oak (SelectOption ''Oak'') \<and>
   dispatch calm (SelectOption ''Elm'') (dispatch calm (SelectOption ''Oak'') guessing_oak)
     = dispatch calm (SelectOption ''Oak'') guessing_oak"
proof -
  have a: "selectedOption (guessing_oak\<lparr>selectedOption := Some ''Oak''\<rparr>) \<noteq> None" by simp
  have b: "enabled guessing_oak (SelectOption ''Oak'')"
    by (simp add: guessing_oak_def oak_round_def)
  from second_guess_ignored [of "guessing_oak\<lparr>selectedOption := Some ''Oak''\<rparr>" calm "''Elm''"]
    second_guess_ignored [of guessing_oak calm "''Oak''" calm "''Elm''"] a b
  show ?thesis by simp
qed

section \<open>A missing spring image\<close>

text \<open>
  Claim C5. Let the guess name the target while the spring image request fails. Then the
  promise of \<^verbatim>\<open>handleGuess\<close> is fulfilled all the same (the rejection is caught), the status
  is \<^verbatim>\<open>RESULT\<close>, the round is untouched, so its \<^verbatim>\<open>springImageUrl\<close> is still null and the
  view shows the autumn image in its place, and the score, the pool and the position from
  which \<^verbatim>\<open>nextRound\<close> continues are those of the run in which the request succeeds. (That
  the round has no spring image before the guess holds in every guessing state a session
  reaches; this is shown further down.)
\<close>

theorem after_image_failure_degrades:
  assumes "currentRound s = Some rd"
    and "springImageUrl rd = None"
    and "generateTreeImage env (springDescription (targetTree rd)) Spring = Rejected e"
    and "generateTreeImage env' (springDescription (targetTree rd)) Spring = Fulfilled img"
  shows "(let failed = handleGuess env (commonName (targetTree rd)) s;
              succeeded = handleGuess env' (commonName (targetTree rd)) s
          in fst failed = Fulfilled () \<and>
             status (snd failed) = RESULT \<and>
             currentRound (snd failed) = Some rd \<and>
             displayed_image (snd failed) rd = autumnImageUrl rd \<and>
             score (snd failed) = score s + 1 \<and>
             status (snd succeeded) = RESULT \<and>
             score (snd failed) = score (snd succeeded) \<and>
             pool (snd failed) = pool (snd succeeded) \<and>
             nextIdx (snd failed) = nextIdx (snd succeeded))"
  using assms by (simp add: handleGuess_def Let_def displayed_image_def nextIdx_def)

theorem after_image_failure_degrades_witness:
  "currentRound guessing_oak = Some (oak_round None) \<and>
   springImageUrl (oak_round None) = None \<and>
   generateTreeImage frost (springDescription (targetTree (oak_round None))) Spring
     = Rejected ProviderError \<and>
   generateTreeImage calm (springDescription (targetTree (oak_round None))) Spring
     = Fulfilled ''data:image/png;base64,AAAA'' \<and>
   handleGuess frost ''Oak'' guessing_oak = (Fulfilled (), result_oak None) \<and>
   displayed_image (result_oak None) (oak_round None) = ''data:image/png;base64,AAAA'' \<and>
   score (snd (handleGuess calm ''Oak'' guessing_oak)) = 1 \<and>
   nextIdx (snd (handleGuess calm ''Oak'' guessing_oak)) = 1"
proof -
  have a: "currentRound guessing_oak = Some (oak_round None)" by (simp add: guessing_oak_def)
  have b: "springImageUrl (oak_round None) = None" by (simp add: oak_round_def)
  have c: "generateTreeImage frost (springDescription (targetTree (oak_round None))) Spring
     = Rejected ProviderError" by (simp add: frost_def generateTreeImage_example)
  have d: "generateTreeImage calm (springDescription (targetTree (oak_round None))) Spring
     = Fulfilled ''data:image/png;base64,AAAA''" by (simp add: calm_def generateTreeImage_example)
  have n: "commonName (targetTree (oak_round None)) = ''Oak''"
    by (simp add: oak_round_def specimen_def)
  have r: "handleGuess frost ''Oak'' guessing_oak = (Fulfilled (), result_oak None)"
    using guess_oak_frost by (simp add: dispatch_def guessing_oak_def oak_round_def prod_eq_iff handleGuess_def frost_def generateTreeImage_example specimen_def)
  have i: "nextIdx (result_oak None) = 1"
    by (simp add: nextIdx_def result_oak_def oak_round_def forest_def specimen_def)
  have u: "autumnImageUrl (oak_round None) = ''data:image/png;base64,AAAA''"
    by (simp add: oak_round_def)
  have k: "score (result_oak None) = 1" by (simp add: result_oak_def)
  from after_image_failure_degrades [OF a b c d]
  have "displayed_image (snd (handleGuess frost ''Oak'' guessing_oak)) (oak_round None)
      = autumnImageUrl (oak_round None)"
    and "score (snd (handleGuess frost ''Oak'' guessing_oak))
      = score (snd (handleGuess calm ''Oak'' guessing_oak))"
    and "nextIdx (snd (handleGuess frost ''Oak'' guessing_oak))
      = nextIdx (snd (handleGuess calm ''Oak'' guessing_oak))"
    by (simp_all add: Let_def n)
  then have "displayed_image (result_oak None) (oak_round None) = ''data:image/png;base64,AAAA''"
    and "score (snd (handleGuess calm ''Oak'' guessing_oak)) = 1"
    and "nextIdx (snd (handleGuess calm ''Oak'' guessing_oak)) = 1"
    unfolding r snd_conv u k i by simp_all
  with a b c d r show ?thesis by blast
qed

section \<open>A missing autumn image\<close>

text \<open>
  Claim C10. \<^verbatim>\<open>startRound\<close> waits for the autumn image in the state \<open>startRound_awaiting s\<close>.
  When the request fails, the session ends in that state with the status \<^verbatim>\<open>ERROR\<close>: the
  failure changes the status field and nothing else. The current round, the pool and the
  score are those the session had before \<^verbatim>\<open>startRound\<close> was called, and the promise of
  \<^verbatim>\<open>startRound\<close> is fulfilled.
\<close>

theorem before_image_failure:
  assumes "generateTreeImage env (autumnDescription target) Autumn = Rejected e"
  shows "fst (startRound env (Some target) currentPool s) = Fulfilled () \<and>
         snd (startRound env (Some target) currentPool s)
           = (startRound_awaiting s)\<lparr>status := ERROR\<rparr> \<and>
         status (snd (startRound env (Some target) currentPool s)) = ERROR \<and>
         currentRound (snd (startRound env (Some target) currentPool s)) = currentRound s \<and>
         pool (snd (startRound env (Some target) currentPool s)) = pool s \<and>
         score (snd (startRound env (Some target) currentPool s)) = score s \<and>
         currentRound (startRound_awaiting s) = currentRound s \<and>
         pool (startRound_awaiting s) = pool s \<and>
         score (startRound_awaiting s) = score s"
  by (simp add: startRound_rejected [OF assms] startRound_awaiting_def)

theorem before_image_failure_witness:
  "generateTreeImage drought (autumnDescription (specimen ''tree-5-1'' ''Elm'')) Autumn
     = Rejected ProviderError \<and>
   snd (startRound drought (Some (specimen ''tree-5-1'' ''Elm'')) forest (result_oak None))
     = (startRound_awaiting (result_oak None))\<lparr>status := ERROR\<rparr> \<and>
   currentRound (snd (startRound drought (Some (specimen ''tree-5-1'' ''Elm'')) forest
       (result_oak None))) = Some (oak_round None) \<and>
   pool (snd (startRound drought (Some (specimen ''tree-5-1'' ''Elm'')) forest
       (result_oak None))) = forest \<and>
   score (snd (startRound drought (Some (specimen ''tree-5-1'' ''Elm'')) forest
       (result_oak None))) = 1"
proof -
  have a: "generateTreeImage drought (autumnDescription (specimen ''tree-5-1'' ''Elm'')) Autumn
     = Rejected ProviderError" by (simp add: drought_def generateTreeImage_example)
  from before_image_failure [OF a, of forest "result_oak None"] a
  show ?thesis by (simp add: result_oak_def)
qed

section \<open>Advancing in pool order\<close>

lemma findIndex_bounds: "- 1 \<le> findIndex p xs \<and> findIndex p xs < int (length xs)"
  by (induction xs) (auto simp: Let_def)

lemma findIndex_first:
  "i < length xs \<Longrightarrow> p (xs ! i) \<Longrightarrow> (\<forall>j<i. \<not> p (xs ! j)) \<Longrightarrow> findIndex p xs = int i"
proof (induction xs arbitrary: i)
  case Nil
  then show ?case by simp
next
  case (Cons x xs)
  show ?case
  proof (cases i)
    case 0
    with Cons.prems show ?thesis by simp
  next
    case (Suc k)
    with Cons.prems have k: "k < length xs" "p (xs ! k)" by simp_all
    have "\<forall>j<k. \<not> p (xs ! j)"
    proof (intro allI impI)
      fix j assume "j < k"
      then have "Suc j < i" using Suc by simp
      with Cons.prems(3) have "\<not> p ((x # xs) ! Suc j)" by blast
      then show "\<not> p (xs ! j)" by simp
    qed
    with k have "findIndex p xs = int k" by (rule Cons.IH)
    moreover from Cons.prems(3) Suc have "\<not> p x" by (metis nth_Cons_0 zero_less_Suc)
    ultimately show ?thesis using Suc by (simp add: Let_def)
  qed
qed

lemma findIndex_distinct:
  assumes "distinct (map f xs)" "i < length xs"
  shows "findIndex (\<lambda>t. Some (f t) = Some (f (xs ! i))) xs = int i"
proof (rule findIndex_first)
  show "i < length xs" by fact
  show "Some (f (xs ! i)) = Some (f (xs ! i))" by simp
  show "\<forall>j<i. \<not> Some (f (xs ! j)) = Some (f (xs ! i))"
  proof (intro allI impI)
    fix j assume j: "j < i"
    with assms(2) have "j < length (map f xs)" "i < length (map f xs)" "j \<noteq> i" by simp_all
    with assms(1) have "map f xs ! j \<noteq> map f xs ! i"
      by (simp only: nth_eq_iff_index_eq not_False_eq_True)
    with j assms(2) show "\<not> Some (f (xs ! j)) = Some (f (xs ! i))" by simp
  qed
qed

lemma nextIdx_in_pool:
  assumes "distinct (map tree_id (pool s))" "currentRound s = Some rd"
    "i < length (pool s)" "tree_id (pool s ! i) = tree_id (targetTree rd)"
  shows "nextIdx s = int i + 1"
  using findIndex_distinct [OF assms(1,3)] assms(2,4) by (simp add: nextIdx_def)

lemma nextRound_in_pool:
  assumes "distinct (map tree_id (pool s))" "currentRound s = Some rd"
    "i < length (pool s)" "tree_id (pool s ! i) = tree_id (targetTree rd)"
    "difficulty s = Some d"
  shows "nextRound env s =
     (if Suc i < length (pool s) then snd (startRound env (Some (pool s ! Suc i)) (pool s) s)
      else snd (initGame env d s))"
proof -
  from assms(1-4) have n: "nextIdx s = int (Suc i)" by (simp add: nextIdx_in_pool)
  then have a: "nat (nextIdx s) = Suc i" by (simp only: nat_int)
  from n have b: "(nextIdx s < int (length (pool s))) = (Suc i < length (pool s))"
    by (simp only: of_nat_less_iff)
  show ?thesis unfolding nextRound_def a b using assms(5) by simp
qed

lemma nextIdx_nonneg: "0 \<le> nextIdx s"
  using findIndex_bounds [of "\<lambda>t. Some (tree_id t) = map_option (\<lambda>rd. tree_id (targetTree rd)) (currentRound s)" "pool s"]
  by (simp add: nextIdx_def)

lemma startRound_round_from_pool:
  assumes "distinct (map tree_id currentPool)" "pool s = currentPool" "difficulty s \<noteq> None"
    "\<And>tgt. target = Some tgt \<Longrightarrow> tgt \<in> set currentPool"
  shows "round_from_pool (snd (startRound env target currentPool s))"
  using assms
  by (cases env target currentPool s rule: startRound_cases)
     (auto simp add: round_from_pool_def)

lemma first_element_in_set: "first_element xs = Some x \<Longrightarrow> x \<in> set xs"
  by (cases xs) auto

lemma initGame_round_from_pool:
  assumes "round_from_pool s"
  shows "round_from_pool (snd (initGame env d s))"
proof (cases "fetchNewTrees env d")
  case (Fulfilled trees)
  then have "distinct (map tree_id trees)" by (rule fetchNewTrees_distinct)
  then have "round_from_pool
      (snd (startRound env (first_element trees) trees
         (s\<lparr>difficulty := Some d, status := LOADING,
            loadingStep := ''Stepping onto the '' @ Difficulty_toLowerCase d @ '' trail...'',
            pool := trees\<rparr>)))"
    by (intro startRound_round_from_pool) (simp_all add: first_element_in_set)
  then show ?thesis by (simp only: initGame_fulfilled [OF Fulfilled])
next
  case (Rejected e)
  with assms show ?thesis by (simp add: initGame_rejected round_from_pool_def)
qed

lemma nextRound_round_from_pool:
  assumes "round_from_pool s" "status s = RESULT"
  shows "round_from_pool (nextRound env s)"
proof (cases "nextIdx s < int (length (pool s))")
  case True
  with nextIdx_nonneg [of s] have "nat (nextIdx s) < length (pool s)" by simp
  then have m: "pool s ! nat (nextIdx s) \<in> set (pool s)" by simp
  from assms have "distinct (map tree_id (pool s))" and "difficulty s \<noteq> None"
    by (simp_all add: round_from_pool_def)
  then have "round_from_pool
      (snd (startRound env (Some (pool s ! nat (nextIdx s))) (pool s) s))"
    using m by (intro startRound_round_from_pool) simp_all
  with True show ?thesis by (simp add: nextRound_def)
next
  case False
  with assms show ?thesis
    by (auto simp add: nextRound_def initGame_round_from_pool split: option.splits)
qed

lemma handleGuess_round_from_pool:
  assumes "round_from_pool s" "status s = GUESSING"
  shows "round_from_pool (snd (handleGuess env choice s))"
  using assms
  by (auto simp add: round_from_pool_def handleGuess_def Let_def
      split: option.splits promise.splits)

lemma dispatch_round_from_pool:
  assumes "round_from_pool s"
  shows "round_from_pool (dispatch env e s)"
proof (cases "enabled s e")
  case False
  with assms show ?thesis by (simp add: dispatch_def)
next
  case en: True
  show ?thesis
  proof (cases e)
    case (SelectDifficulty d)
    with assms en show ?thesis by (simp add: dispatch_def initGame_round_from_pool)
  next
    case (SelectOption opt)
    with assms en show ?thesis by (simp add: dispatch_def handleGuess_round_from_pool)
  next
    case Advance
    with assms en show ?thesis by (simp add: dispatch_def nextRound_round_from_pool)
  next
    case RegenerateFact
    with assms en show ?thesis
      by (auto simp add: dispatch_def handleRegenerateFact_request_def round_from_pool_def
          split: option.splits)
  next
    case (FactSettled outcome)
    with assms en show ?thesis
      by (auto simp add: dispatch_def handleRegenerateFact_settled_def round_from_pool_def
          split: promise.splits option.splits)
  next
    case ReturnToDifficultySelection
    with assms en show ?thesis
      by (simp add: dispatch_def returnToDifficultySelection_def round_from_pool_def)
  qed
qed

lemma run_round_from_pool: "round_from_pool s \<Longrightarrow> round_from_pool (run s steps)"
proof (induction steps arbitrary: s)
  case Nil
  then show ?case by simp
next
  case (Cons step steps)
  obtain env e where "step = (env, e)" by (cases step)
  with Cons show ?case by (simp add: dispatch_round_from_pool)
qed

lemma initial_round_from_pool: "round_from_pool initial_state"
  by (simp add: round_from_pool_def initial_state_def)

text \<open>
  Claim C6. In every result state that a session reaches from the initial state, there are
  a current round, a chosen difficulty and a position \<open>i\<close> of the pool that holds the
  specimen with the target's id, the only one, since the ids of the pool are pairwise
  distinct; the continue button then runs \<^verbatim>\<open>startRound\<close> for the
  specimen at position \<open>i + 1\<close> of the same pool when there is one, and \<^verbatim>\<open>initGame\<close> for
  the same difficulty, which fetches a new pool, when there is none.
\<close>

theorem advance_in_pool_order:
  assumes "s = run initial_state steps" and "status s = RESULT"
  shows "\<exists>rd i d. currentRound s = Some rd \<and> difficulty s = Some d \<and>
           distinct (map tree_id (pool s)) \<and>
           i < length (pool s) \<and> tree_id (pool s ! i) = tree_id (targetTree rd) \<and>
           dispatch env Advance s =
             (if Suc i < length (pool s)
              then snd (startRound env (Some (pool s ! Suc i)) (pool s) s)
              else snd (initGame env d s))"
proof -
  from assms(1) have inv: "round_from_pool s"
    by (simp add: run_round_from_pool initial_round_from_pool)
  with assms(2) obtain rd d where rd: "currentRound s = Some rd" and d: "difficulty s = Some d"
    and "tree_id (targetTree rd) \<in> tree_id ` set (pool s)"
    by (auto simp add: round_from_pool_def split: option.splits)
  then obtain i where i: "i < length (pool s)" "tree_id (pool s ! i) = tree_id (targetTree rd)"
    by (auto simp add: in_set_conv_nth)
  from inv have ids: "distinct (map tree_id (pool s))" by (simp add: round_from_pool_def)
  from nextRound_in_pool [OF ids rd i d] assms(2) rd
  have "dispatch env Advance s =
             (if Suc i < length (pool s)
              then snd (startRound env (Some (pool s ! Suc i)) (pool s) s)
              else snd (initGame env d s))"
    by (simp add: dispatch_def)
  with rd d i ids show ?thesis by blast
qed

section \<open>Two rounds of the example session\<close>

lemma round_options_forest_elm:
  "round_options (example_provider data images) (specimen ''tree-5-1'' ''Elm'') forest
     = [''Elm'', ''Oak'', ''Ash'']"
  by (simp add: round_options_def sampled_distractors_def example_provider_def forest_def specimen_def)

lemma nextIdx_result_oak: "nextIdx (result_oak after) = 1"
  by (simp add: nextIdx_def result_oak_def oak_round_def forest_def specimen_def)

lemma advance_oak_calm:
  "dispatch calm Advance (result_oak (Some ''data:image/png;base64,AAAA'')) = guessing_elm"
proof -
  have "pool (result_oak (Some ''data:image/png;base64,AAAA'')) = forest"
    and "forest ! 1 = specimen ''tree-5-1'' ''Elm''" and "length forest = 3"
    by (simp_all add: result_oak_def forest_def)
  then show ?thesis
    by (simp add: dispatch_def nextRound_def nextIdx_result_oak calm_def
        startRound_fulfilled [OF generateTreeImage_example(1)] round_options_forest_elm)
      (simp add: result_oak_def guessing_elm_def elm_round_def)
qed

lemma guess_elm_calm:
  "dispatch calm (SelectOption ''Elm'') guessing_elm
     = result_elm (Some ''data:image/png;base64,AAAA'')"
  by (simp add: dispatch_def handleGuess_def calm_def guessing_elm_def result_elm_def
      elm_round_def generateTreeImage_example specimen_def)

lemma run_two_rounds:
  "run initial_state two_rounds = result_elm (Some ''data:image/png;base64,AAAA'')"
  by (simp add: two_rounds_def select_easy_calm guess_oak_calm advance_oak_calm guess_elm_calm)

lemma correct_guesses_two_rounds: "correct_guesses initial_state two_rounds = 2"
proof -
  have "\<not> is_correct_guess initial_state (SelectDifficulty EASY)"
    and "is_correct_guess guessing_oak (SelectOption ''Oak'')"
    and "\<not> is_correct_guess (result_oak (Some ''data:image/png;base64,AAAA'')) Advance"
    and "is_correct_guess guessing_elm (SelectOption ''Elm'')"
    by (simp_all add: is_correct_guess_def guessing_oak_def oak_round_def guessing_elm_def
        elm_round_def specimen_def)
  then show ?thesis
    by (simp add: two_rounds_def select_easy_calm guess_oak_calm advance_oak_calm
        guess_elm_calm)
qed

theorem score_counts_correct_guesses_witness:
  "score initial_state = 0 \<and>
   correct_guesses initial_state two_rounds = 2 \<and>
   score (run initial_state two_rounds) = 2 \<and>
   enabled guessing_oak (SelectOption ''Oak'') \<and>
   currentRound guessing_oak = Some (oak_round None) \<and>
   ''Oak'' = commonName (targetTree (oak_round None)) \<and>
   score (dispatch calm (SelectOption ''Oak'') guessing_oak) = 1 \<and>
   ''Elm'' \<noteq> commonName (targetTree (oak_round None)) \<and>
   score (snd (handleGuess calm ''Elm'' guessing_oak)) = 0 \<and>
   score (dispatch calm (SelectOption ''Elm'') guessing_oak) = 0"
proof -
  have a: "score initial_state = 0" by (simp add: initial_state_def)
  have b: "currentRound guessing_oak = Some (oak_round None)" by (simp add: guessing_oak_def)
  have c: "''Elm'' \<noteq> commonName (targetTree (oak_round None))"
    by (simp add: oak_round_def specimen_def)
  have d: "''Oak'' = commonName (targetTree (oak_round None))"
    by (simp add: oak_round_def specimen_def)
  have e: "enabled guessing_oak (SelectOption ''Oak'')"
    by (simp add: guessing_oak_def oak_round_def)
  have z: "score guessing_oak = 0" by (simp add: guessing_oak_def)
  from score_counts_correct_guesses
    [of initial_state two_rounds guessing_oak "''Oak''" "oak_round None" calm "''Elm''"]
    a b c d e
  have "score (run initial_state two_rounds) = correct_guesses initial_state two_rounds"
    and "score (dispatch calm (SelectOption ''Oak'') guessing_oak) = score guessing_oak + 1"
    and "score (snd (handleGuess calm ''Elm'' guessing_oak)) = score guessing_oak"
    and "score (dispatch calm (SelectOption ''Elm'') guessing_oak) = score guessing_oak"
    by simp_all
  then have "score (run initial_state two_rounds) = 2"
    and "score (dispatch calm (SelectOption ''Oak'') guessing_oak) = 1"
    and "score (snd (handleGuess calm ''Elm'' guessing_oak)) = 0"
    and "score (dispatch calm (SelectOption ''Elm'') guessing_oak) = 0"
    by (simp_all add: correct_guesses_two_rounds z)
  with a b c d e correct_guesses_two_rounds show ?thesis by blast
qed

theorem advance_in_pool_order_witness:
  "result_oak (Some ''data:image/png;base64,AAAA'')
     = run initial_state [(calm, SelectDifficulty EASY), (calm, SelectOption ''Oak'')] \<and>
   status (result_oak (Some ''data:image/png;base64,AAAA'')) = RESULT \<and>
   (\<exists>rd i d.
      currentRound (result_oak (Some ''data:image/png;base64,AAAA'')) = Some rd \<and>
      difficulty (result_oak (Some ''data:image/png;base64,AAAA'')) = Some d \<and>
      distinct (map tree_id (pool (result_oak (Some ''data:image/png;base64,AAAA'')))) \<and>
      i < length (pool (result_oak (Some ''data:image/png;base64,AAAA''))) \<and>
      tree_id (pool (result_oak (Some ''data:image/png;base64,AAAA'')) ! i)
        = tree_id (targetTree rd) \<and>
      guessing_elm =
        (if Suc i < length (pool (result_oak (Some ''data:image/png;base64,AAAA'')))
         then snd (startRound calm
                (Some (pool (result_oak (Some ''data:image/png;base64,AAAA'')) ! Suc i))
                (pool (result_oak (Some ''data:image/png;base64,AAAA'')))
                (result_oak (Some ''data:image/png;base64,AAAA'')))
         else snd (initGame calm d (result_oak (Some ''data:image/png;base64,AAAA'')))))"
proof -
  have a: "result_oak (Some ''data:image/png;base64,AAAA'')
     = run initial_state [(calm, SelectDifficulty EASY), (calm, SelectOption ''Oak'')]"
    by (simp add: select_easy_calm guess_oak_calm)
  have b: "status (result_oak (Some ''data:image/png;base64,AAAA'')) = RESULT"
    by (simp add: result_oak_def)
  note e = advance_in_pool_order [OF a b, of calm, unfolded advance_oak_calm]
  show ?thesis by (rule conjI [OF a conjI [OF b e]])
qed

section \<open>Further properties of a session\<close>

lemma startRound_unanswered: "unanswered (snd (startRound env target currentPool s))"
  by (cases env target currentPool s rule: startRound_cases) (simp_all add: unanswered_def)

lemma initGame_unanswered: "unanswered (snd (initGame env d s))"
proof (cases "fetchNewTrees env d")
  case (Fulfilled trees)
  show ?thesis
    by (simp only: initGame_fulfilled [OF Fulfilled] startRound_unanswered)
next
  case (Rejected e)
  then show ?thesis by (simp add: initGame_rejected unanswered_def)
qed

lemma handleGuess_status:
  "currentRound s = Some rd \<Longrightarrow> status (snd (handleGuess env choice s)) = RESULT"
  by (cases "generateTreeImage env (springDescription (targetTree rd)) Spring")
     (simp_all add: handleGuess_def Let_def)

lemma handleGuess_unanswered:
  "currentRound s \<noteq> None \<Longrightarrow> unanswered (snd (handleGuess env choice s))"
  by (auto simp add: unanswered_def handleGuess_status)

lemma dispatch_unanswered:
  assumes "unanswered s"
  shows "unanswered (dispatch env e s)"
proof (cases "enabled s e")
  case False
  with assms show ?thesis by (simp add: dispatch_def)
next
  case en: True
  show ?thesis
  proof (cases e)
    case (SelectDifficulty d)
    with en show ?thesis by (simp add: dispatch_def initGame_unanswered)
  next
    case (SelectOption opt)
    with en have "currentRound s \<noteq> None" by (auto split: option.splits)
    then have "unanswered (snd (handleGuess env opt s))" by (rule handleGuess_unanswered)
    with en SelectOption show ?thesis by (simp add: dispatch_def)
  next
    case Advance
    have "unanswered (nextRound env s)"
      using assms
      by (simp add: nextRound_def startRound_unanswered initGame_unanswered
          split: option.splits)
    with en Advance show ?thesis by (simp add: dispatch_def)
  next
    case RegenerateFact
    with assms en show ?thesis
      by (simp add: dispatch_def handleRegenerateFact_request_def unanswered_def)
  next
    case (FactSettled outcome)
    with assms en show ?thesis
      by (auto simp add: dispatch_def handleRegenerateFact_settled_def unanswered_def
          split: promise.splits option.splits)
  next
    case ReturnToDifficultySelection
    with en show ?thesis
      by (simp add: dispatch_def returnToDifficultySelection_def unanswered_def)
  qed
qed

lemma run_unanswered: "unanswered s \<Longrightarrow> unanswered (run s steps)"
proof (induction steps arbitrary: s)
  case Nil
  then show ?case by simp
next
  case (Cons step steps)
  obtain env e where "step = (env, e)" by (cases step)
  with Cons show ?case by (simp add: dispatch_unanswered)
qed

text \<open>
  In every guessing state that a session reaches, no choice is recorded yet and the round
  has no spring image.
\<close>

lemma guessing_unanswered:
  assumes "s = run initial_state steps" "status s = GUESSING"
  shows "selectedOption s = None \<and>
         (\<exists>rd. currentRound s = Some rd \<and> springImageUrl rd = None)"
proof -
  have "unanswered initial_state" by (simp add: unanswered_def initial_state_def)
  with assms(1) have "unanswered s" by (simp add: run_unanswered)
  with assms(2) show ?thesis by (auto simp add: unanswered_def split: option.splits)
qed

text \<open>What the two branches of \<^verbatim>\<open>nextRound\<close> lead to when the provider answers.\<close>

lemma advance_next_specimen:
  assumes "status s = RESULT" "currentRound s = Some rd"
    and "distinct (map tree_id (pool s))"
    and "Suc i < length (pool s)" "tree_id (pool s ! i) = tree_id (targetTree rd)"
    and "difficulty s = Some d"
    and "generateTreeImage env (autumnDescription (pool s ! Suc i)) Autumn = Fulfilled img"
  shows "status (dispatch env Advance s) = GUESSING \<and>
         map_option targetTree (currentRound (dispatch env Advance s)) = Some (pool s ! Suc i) \<and>
         pool (dispatch env Advance s) = pool s"
proof -
  from assms(4) have "i < length (pool s)" by simp
  from nextRound_in_pool [OF assms(3) assms(2) this assms(5) assms(6)] assms(1,2,4)
  have "dispatch env Advance s = snd (startRound env (Some (pool s ! Suc i)) (pool s) s)"
    by (simp add: dispatch_def)
  then show ?thesis by (simp add: startRound_fulfilled [OF assms(7)])
qed

lemma advance_new_pool:
  assumes "status s = RESULT" "currentRound s = Some rd"
    and "distinct (map tree_id (pool s))"
    and "Suc i = length (pool s)" "tree_id (pool s ! i) = tree_id (targetTree rd)"
    and "difficulty s = Some d"
    and "fetchNewTrees env d = Fulfilled trees"
  shows "pool (dispatch env Advance s) = trees \<and>
         difficulty (dispatch env Advance s) = Some d \<and>
         score (dispatch env Advance s) = score s"
proof -
  from assms(4) have "i < length (pool s)" by simp
  from nextRound_in_pool [OF assms(3) assms(2) this assms(5) assms(6)] assms(1,2,4)
  have "dispatch env Advance s = snd (initGame env d s)"
    by (simp add: dispatch_def)
  then show ?thesis
    by (simp add: initGame_fulfilled [OF assms(7)] startRound_frame)
qed

text \<open>
  The options of the twin pool have a duplicate whatever order the random sorts produce.
\<close>

lemma twins_never_distinct:
  assumes "sorts_permute env"
  shows "\<not> distinct (round_options env (specimen ''tree-5-0'' ''Oak'') twins)"
proof -
  let ?F = "[specimen ''tree-5-1'' ''Oak'', specimen ''tree-5-2'' ''Elm'']"
  have F: "filter (\<lambda>t. tree_id t \<noteq> tree_id (specimen ''tree-5-0'' ''Oak'')) twins = ?F"
    by (simp add: twins_def specimen_def)
  from assms have Y: "mset (sort_random_trees env ?F) = mset ?F"
    by (simp add: sorts_permute_def)
  then have "length (sort_random_trees env ?F) = 2" by (simp add: mset_eq_length [OF Y])
  then have "take 2 (sort_random_trees env ?F) = sort_random_trees env ?F" by simp
  moreover from Y have "set (sort_random_trees env ?F) = set ?F" by (rule mset_eq_setD)
  ultimately have "''Oak'' \<in> set (map commonName (take 2 (sort_random_trees env ?F)))"
    by (simp add: specimen_def)
  then have nd: "\<not> distinct (''Oak'' # map commonName (take 2 (sort_random_trees env ?F)))"
    by simp
  have "distinct (sort_random_names env ns) = distinct ns" for ns
  proof -
    from assms have "mset (sort_random_names env ns) = mset ns"
      by (simp add: sorts_permute_def)
    then show ?thesis by (rule mset_eq_imp_distinct_iff)
  qed
  moreover have "round_options env (specimen ''tree-5-0'' ''Oak'') twins =
      sort_random_names env (''Oak'' # map commonName (take 2 (sort_random_trees env ?F)))"
    unfolding round_options_def sampled_distractors_def Let_def F by (simp add: specimen_def)
  ultimately show ?thesis using nd by simp
qed

text \<open>
  With the other specimen of the twin pool as target, the two distractors share a name and
  still exactly one label is the target's.
\<close>

lemma twins_one_target:
  "round_options (example_provider twins_data every_image) (specimen ''tree-5-2'' ''Elm'') twins
     = [''Elm'', ''Oak'', ''Oak''] \<and>
   count_list [''Elm'', ''Oak'', ''Oak''] ''Elm'' = 1 \<and>
   \<not> distinct [''Elm'', ''Oak'', ''Oak'']"
  by (simp add: round_options_def sampled_distractors_def example_provider_def twins_def
      specimen_def)

text \<open>
  \<^verbatim>\<open>handleGuess\<close> itself does not look at \<^verbatim>\<open>selectedOption\<close>: called on a state whose choice is
  recorded it would count again. Only the view keeps a second click from reaching it.
\<close>

lemma handleGuess_unguarded:
  "score (snd (handleGuess calm ''Oak'' (result_oak None))) = 2"
  by (simp add: handleGuess_def result_oak_def oak_round_def specimen_def calm_def
      generateTreeImage_example)

section \<open>The rotation of the globe\<close>

lemma render_rotation: "rotation (render g) = rotation g + 0.25"
  by (simp add: render_def requestAnimationFrame_def projection_rotate_set_def Let_def)

lemma render_projection:
  "projection_rotate (render g) = (wrap360 (rotation g + 0.25), - 15)"
  by (simp add: render_def requestAnimationFrame_def projection_rotate_set_def Let_def)

lemma render_active: "requested_frames g = [] \<Longrightarrow> active (render g)"
  by (simp add: render_def requestAnimationFrame_def projection_rotate_set_def Let_def
      active_def)

lemma animation_frame_active:
  assumes "active g"
  shows "animation_frame g = render (g\<lparr>requested_frames := []\<rparr>)"
  using assms by (auto simp add: active_def animation_frame_def)

lemma active_animation_frame: "active g \<Longrightarrow> active (animation_frame g)"
  by (simp add: animation_frame_active render_active)

lemma active_start: "active start_effect"
  by (simp add: start_effect_def render_active)

lemma frames_Suc: "frames (Suc n) g = animation_frame (frames n g)"
  by (simp add: frames_def)

lemma active_frames: "active (frames n start_effect)"
  by (induction n) (simp_all add: frames_def active_start active_animation_frame)

lemma rotation_frame:
  "active g \<Longrightarrow> rotation (animation_frame g) = rotation g + 0.25"
  by (simp add: animation_frame_active render_rotation)

lemma projection_frame:
  "active g \<Longrightarrow> projection_rotate (animation_frame g) = (wrap360 (rotation g + 0.25), - 15)"
  by (simp add: animation_frame_active render_projection)

lemma rotation_frames: "rotation (frames n start_effect) = 0.25 * (real n + 1)"
proof (induction n)
  case 0
  show ?case by (simp add: frames_def start_effect_def render_rotation)
next
  case (Suc n)
  then show ?case
    by (simp add: frames_Suc rotation_frame active_frames algebra_simps)
qed

lemma projection_frames:
  "projection_rotate (frames n start_effect) = (wrap360 (rotation (frames n start_effect)), - 15)"
proof (cases n)
  case 0
  show ?thesis by (simp add: 0 frames_def start_effect_def render_rotation render_projection)
next
  case (Suc k)
  then show ?thesis
    by (simp add: frames_Suc projection_frame rotation_frame active_frames)
qed

lemma cleanup_active:
  "active g \<Longrightarrow> requested_frames (cleanup g) = [] \<and> rotation (cleanup g) = rotation g
     \<and> projection_rotate (cleanup g) = projection_rotate g"
  by (auto simp add: active_def cleanup_def cancelAnimationFrame_def)

lemma animation_frame_idle: "requested_frames g = [] \<Longrightarrow> animation_frame g = g"
  by (simp add: animation_frame_def)

lemma frames_idle: "requested_frames g = [] \<Longrightarrow> frames m g = g"
  by (induction m) (simp_all add: frames_def animation_frame_idle)

lemma wrap360_range: "0 \<le> wrap360 x \<and> wrap360 x < 360"
proof -
  have "of_int \<lfloor>x / 360\<rfloor> \<le> x / 360" and "x / 360 < of_int \<lfloor>x / 360\<rfloor> + 1"
    by linarith+
  then show ?thesis by (simp add: wrap360_def field_simps)
qed

lemma wrap360_quarters: "wrap360 (0.25 * real k) = 0.25 * real (k mod 1440)"
proof -
  have "0.25 * real k / 360 = real k / real 1440" by simp
  then have "\<lfloor>0.25 * real k / 360\<rfloor> = int (k div 1440)"
    by (simp only: floor_divide_of_nat_eq)
  then have "wrap360 (0.25 * real k) = 0.25 * real k - 360 * real (k div 1440)"
    by (simp add: wrap360_def)
  also have "\<dots> = 0.25 * (real k - 1440 * real (k div 1440))" by simp
  also have "real k - 1440 * real (k div 1440) = real (k mod 1440)"
    by (metis add_diff_cancel_left' mult.commute of_nat_add of_nat_mult of_nat_numeral
        div_mult_mod_eq)
  finally show ?thesis .
qed

lemma wrap360_add: "wrap360 (wrap360 x + y) = wrap360 (x + y)"
proof -
  have "(x - 360 * of_int \<lfloor>x / 360\<rfloor> + y) / 360 = (x + y) / 360 - of_int \<lfloor>x / 360\<rfloor>"
    by (simp add: field_simps)
  then have "\<lfloor>(x - 360 * of_int \<lfloor>x / 360\<rfloor> + y) / 360\<rfloor> = \<lfloor>(x + y) / 360\<rfloor> - \<lfloor>x / 360\<rfloor>"
    by (simp only: floor_diff_of_int)
  then show ?thesis by (simp add: wrap360_def)
qed

lemma quarters_differ: "0.25 * real (Suc k mod 1440) \<noteq> 0.25 * real (k mod 1440)"
  by (simp add: mod_Suc)

text \<open>
  Claim C8. After the effect has started and \<open>n\<close> frames have passed, the variable
  \<^verbatim>\<open>rotation\<close> is \<open>0.25 \<sqdot> (n + 1)\<close>: every frame adds the same quarter of a degree, so it
  grows strictly. The angle of the globe is what the projection holds and
  \<^verbatim>\<open>projection.rotate()\<close> reads back: the rotation reduced modulo 360, with the tilt \<open>-15\<close>.
  It lies between 0 and 360, advances by a quarter of a degree modulo 360 with every frame
  and so differs from frame to frame. Once the clean-up has cancelled the requested
  callback, further frames change nothing, and both keep the values they had.
\<close>

theorem rotation_advances:
  "rotation (frames n start_effect) = 0.25 * (real n + 1) \<and>
   rotation (frames (Suc n) start_effect) = rotation (frames n start_effect) + 0.25 \<and>
   rotation (frames n start_effect) < rotation (frames (Suc n) start_effect) \<and>
   projection_rotate_get (frames n start_effect)
     = (wrap360 (rotation (frames n start_effect)), - 15) \<and>
   0 \<le> fst (projection_rotate_get (frames n start_effect)) \<and>
   fst (projection_rotate_get (frames n start_effect)) < 360 \<and>
   fst (projection_rotate_get (frames n start_effect)) = 0.25 * real (Suc n mod 1440) \<and>
   fst (projection_rotate_get (frames (Suc n) start_effect))
     = wrap360 (fst (projection_rotate_get (frames n start_effect)) + 0.25) \<and>
   fst (projection_rotate_get (frames (Suc n) start_effect))
     \<noteq> fst (projection_rotate_get (frames n start_effect)) \<and>
   frames m (cleanup (frames n start_effect)) = cleanup (frames n start_effect) \<and>
   rotation (cleanup (frames n start_effect)) = rotation (frames n start_effect) \<and>
   projection_rotate_get (cleanup (frames n start_effect))
     = projection_rotate_get (frames n start_effect)"
proof -
  have a: "active (frames n start_effect)" by (rule active_frames)
  have r: "rotation (frames k start_effect) = 0.25 * real (Suc k)" for k
    by (simp add: rotation_frames algebra_simps)
  have p: "fst (projection_rotate_get (frames k start_effect)) = 0.25 * real (Suc k mod 1440)"
    for k
    by (simp only: projection_rotate_get_def projection_frames fst_conv r wrap360_quarters)
  have s: "rotation (frames (Suc n) start_effect) = rotation (frames n start_effect) + 0.25"
    by (simp add: frames_Suc rotation_frame a)
  have w: "fst (projection_rotate_get (frames (Suc n) start_effect))
     = wrap360 (fst (projection_rotate_get (frames n start_effect)) + 0.25)"
    by (simp only: projection_rotate_get_def projection_frames fst_conv s wrap360_add)
  have d: "fst (projection_rotate_get (frames (Suc n) start_effect))
     \<noteq> fst (projection_rotate_get (frames n start_effect))"
    by (simp only: p quarters_differ not_False_eq_True)
  have f: "frames m (cleanup (frames n start_effect)) = cleanup (frames n start_effect)"
    using a by (simp add: frames_idle cleanup_active)
  have c: "rotation (cleanup (frames n start_effect)) = rotation (frames n start_effect)"
    "projection_rotate_get (cleanup (frames n start_effect))
     = projection_rotate_get (frames n start_effect)"
    using a by (simp_all add: cleanup_active projection_rotate_get_def)
  have g: "projection_rotate_get (frames n start_effect)
     = (wrap360 (rotation (frames n start_effect)), - 15)"
    by (simp add: projection_rotate_get_def projection_frames)
  have b: "0 \<le> fst (projection_rotate_get (frames n start_effect))"
    "fst (projection_rotate_get (frames n start_effect)) < 360"
    by (simp_all add: g wrap360_range)
  have i: "rotation (frames n start_effect) < rotation (frames (Suc n) start_effect)"
    by (simp add: s)
  from rotation_frames [of n] s i g b p [of n] w d f c show ?thesis by blast
qed

text \<open>After 1441 renders the variable is past 360 and the angle of the globe has wrapped.\<close>

lemma rotation_after_full_turn:
  "rotation (frames 1440 start_effect) = 360.25 \<and>
   projection_rotate_get (frames 1440 start_effect) = (0.25, - 15)"
proof -
  have "wrap360 (0.25 * real 1441) = 0.25 * real (1441 mod 1440)" by (rule wrap360_quarters)
  then have "wrap360 360.25 = 0.25" by simp
  then show ?thesis
    by (simp add: rotation_frames projection_rotate_get_def projection_frames)
qed

section \<open>The markers on the visible hemisphere\<close>

lemma arccos_less_half_pi:
  assumes "- 1 \<le> v" "v \<le> 1"
  shows "arccos v < pi / 2 \<longleftrightarrow> 0 < v"
proof
  assume a: "arccos v < pi / 2"
  from assms have "0 \<le> arccos v" by (rule arccos_lbound)
  with a have "cos (pi / 2) < cos (arccos v)"
    by (intro cos_monotone_0_pi) simp_all
  with assms show "0 < v" by (simp add: cos_arccos)
next
  assume v: "0 < v"
  show "arccos v < pi / 2"
  proof (rule ccontr)
    assume "\<not> arccos v < pi / 2"
    then have "pi / 2 \<le> arccos v" by simp
    moreover from assms have "arccos v \<le> pi" by (rule arccos_ubound)
    ultimately have "cos (arccos v) \<le> cos (pi / 2)"
      by (intro cos_monotone_0_pi_le) simp_all
    with assms v show False by (simp add: cos_arccos)
  qed
qed

lemma turn_norm:
  fixes x z c s :: real
  assumes "c\<^sup>2 + s\<^sup>2 = 1"
  shows "(x * c - z * s)\<^sup>2 + (z * c + x * s)\<^sup>2 = x\<^sup>2 + z\<^sup>2"
proof -
  have "(x * c - z * s)\<^sup>2 + (z * c + x * s)\<^sup>2 = (x\<^sup>2 + z\<^sup>2) * (c\<^sup>2 + s\<^sup>2)"
    by (simp add: power2_eq_square algebra_simps)
  with assms show ?thesis by simp
qed

lemma scale_norm:
  fixes a b c :: real
  assumes "a\<^sup>2 + b\<^sup>2 = 1"
  shows "(a * c)\<^sup>2 + (b * c)\<^sup>2 = c\<^sup>2"
proof -
  have "(a * c)\<^sup>2 + (b * c)\<^sup>2 = (a\<^sup>2 + b\<^sup>2) * c\<^sup>2"
    by (simp add: power2_eq_square algebra_simps)
  with assms show ?thesis by simp
qed

lemma turned_unit:
  "(fst (turned rot p))\<^sup>2 + (fst (snd (turned rot p)))\<^sup>2 + (snd (snd (turned rot p)))\<^sup>2 = 1"
proof -
  let ?l = "radians (fst p + fst rot)" and ?f = "radians (snd p)" and ?d = "radians (snd rot)"
  let ?x = "cos ?l * cos ?f" and ?y = "sin ?l * cos ?f" and ?z = "sin ?f"
  have "(?x * cos ?d - ?z * sin ?d)\<^sup>2 + (?z * cos ?d + ?x * sin ?d)\<^sup>2 = ?x\<^sup>2 + ?z\<^sup>2"
    by (rule turn_norm) (simp add: add.commute)
  moreover have "?x\<^sup>2 + ?y\<^sup>2 = (cos ?f)\<^sup>2"
    by (rule scale_norm) (simp add: add.commute)
  then have "?x\<^sup>2 + ?y\<^sup>2 + ?z\<^sup>2 = 1" by (simp only: cos_squared_eq)
  ultimately show ?thesis by (simp add: turned_def Let_def)
qed

lemma turned_towards_bounds: "- 1 \<le> fst (turned rot p) \<and> fst (turned rot p) \<le> 1"
proof -
  have "(fst (turned rot p))\<^sup>2 \<le> 1"
    using turned_unit [of rot p]
      zero_le_power2 [of "fst (snd (turned rot p))"] zero_le_power2 [of "snd (snd (turned rot p))"]
    by linarith
  then have "\<bar>fst (turned rot p)\<bar> \<le> 1" by (simp add: abs_square_le_1)
  then show ?thesis by linarith
qed

lemma geoDistance_centre:
  "geoDistance p (- fst rot, - snd rot) = arccos (fst (turned rot p))"
proof -
  have "radians (- fst rot - fst p) = - radians (fst p + fst rot)"
    and "radians (- snd rot) = - radians (snd rot)"
    by (simp_all add: radians_def algebra_simps)
  then show ?thesis
    by (simp add: geoDistance_def turned_def Let_def algebra_simps)
qed

lemma marker_drawn_iff_distance:
  "marker_drawn g loc \<longleftrightarrow>
     geoDistance (lng loc, lat loc)
       (- fst (projection_rotate_get g), - snd (projection_rotate_get g)) < pi / 2"
  by (simp add: marker_drawn_def projection_def Let_def split: prod.splits)

lemma marker_drawn_iff_clip: "marker_drawn g loc \<longleftrightarrow> within_clip g (lng loc, lat loc)"
proof -
  have "geoDistance (lng loc, lat loc)
       (- fst (projection_rotate_get g), - snd (projection_rotate_get g))
      = arccos (fst (turned (projection_rotate g) (lng loc, lat loc)))"
    by (simp only: projection_rotate_get_def geoDistance_centre)
  moreover have "arccos (fst (turned (projection_rotate g) (lng loc, lat loc))) < pi / 2
      \<longleftrightarrow> 0 < fst (turned (projection_rotate g) (lng loc, lat loc))"
    using turned_towards_bounds [of "projection_rotate g" "(lng loc, lat loc)"]
    by (intro arccos_less_half_pi) simp_all
  ultimately show ?thesis by (simp only: marker_drawn_iff_distance within_clip_def)
qed

lemma projection_in_disk:
  "\<exists>c. projection g point = Some c \<and> (fst c - 140)\<^sup>2 + (snd c - 140)\<^sup>2 \<le> (280 / 2.2)\<^sup>2"
proof -
  obtain t r u where t: "turned (projection_rotate g) point = (t, r, u)"
    by (cases "turned (projection_rotate g) point") auto
  from turned_unit [of "projection_rotate g" point] t have "t\<^sup>2 + r\<^sup>2 + u\<^sup>2 = 1" by simp
  then have "r\<^sup>2 + u\<^sup>2 \<le> 1" using zero_le_power2 [of t] by linarith
  then have "(280 / 2.2)\<^sup>2 * (r\<^sup>2 + u\<^sup>2) \<le> (280 / 2.2)\<^sup>2 * 1"
    by (intro mult_left_mono) simp_all
  moreover have "(280 / 2 + 280 / 2.2 * r - 140)\<^sup>2 + (280 / 2 - 280 / 2.2 * u - 140)\<^sup>2
      = (280 / 2.2)\<^sup>2 * (r\<^sup>2 + u\<^sup>2)"
    by (simp add: power2_eq_square algebra_simps)
  ultimately show ?thesis by (simp add: projection_def t)
qed

text \<open>
  Claim C7. For every habitat and every rotation held by the projection, the marker is
  drawn if and only if the great-circle distance between the habitat and the point that
  faces the viewer, whose coordinates are the negated rotation angles, is less than
  \<open>\<pi> / 2\<close>; and that is the case if and only if the habitat lies on the visible
  hemisphere, inside the clip angle of the projection. The projection always yields
  coordinates, and they lie within the disk of the globe.
\<close>

theorem marker_visibility:
  "(marker_drawn g loc \<longleftrightarrow>
      geoDistance (lng loc, lat loc)
        (- fst (projection_rotate_get g), - snd (projection_rotate_get g)) < pi / 2) \<and>
   (marker_drawn g loc \<longleftrightarrow> within_clip g (lng loc, lat loc)) \<and>
   (\<exists>c. projection g (lng loc, lat loc) = Some c \<and>
        (fst c - 140)\<^sup>2 + (snd c - 140)\<^sup>2 \<le> (280 / 2.2)\<^sup>2)"
  using marker_drawn_iff_distance [of g loc] marker_drawn_iff_clip [of g loc]
    projection_in_disk [of g "(lng loc, lat loc)"]
  by blast

text \<open>The point that faces the viewer is drawn, the point opposite to it is not.\<close>

lemma marker_at_centre_and_antipode:
  "marker_drawn g \<lparr>lat = - snd (projection_rotate g), lng = - fst (projection_rotate g),
      label = None\<rparr>"
  "\<not> marker_drawn g \<lparr>lat = snd (projection_rotate g), lng = 180 - fst (projection_rotate g),
      label = None\<rparr>"
proof -
  let ?d = "radians (snd (projection_rotate g))"
  have m: "radians (- snd (projection_rotate g)) = - ?d" and z: "radians 0 = 0"
    and h: "radians 180 = pi"
    by (simp_all add: radians_def)
  have "fst (turned (projection_rotate g)
      (- fst (projection_rotate g), - snd (projection_rotate g))) = cos ?d * cos ?d + sin ?d * sin ?d"
    by (simp add: turned_def Let_def m z)
  then have "fst (turned (projection_rotate g)
      (- fst (projection_rotate g), - snd (projection_rotate g))) = 1" by simp
  then show "marker_drawn g \<lparr>lat = - snd (projection_rotate g),
      lng = - fst (projection_rotate g), label = None\<rparr>"
    by (simp add: marker_drawn_iff_clip within_clip_def)
  have "fst (turned (projection_rotate g)
      (180 - fst (projection_rotate g), snd (projection_rotate g)))
      = - (cos ?d * cos ?d) - sin ?d * sin ?d"
    by (simp add: turned_def Let_def h)
  moreover have "cos ?d * cos ?d + sin ?d * sin ?d = 1" by simp
  ultimately have "fst (turned (projection_rotate g)
      (180 - fst (projection_rotate g), snd (projection_rotate g))) = - 1" by linarith
  then show "\<not> marker_drawn g \<lparr>lat = snd (projection_rotate g),
      lng = 180 - fst (projection_rotate g), label = None\<rparr>"
    by (simp add: marker_drawn_iff_clip within_clip_def)
qed

section \<open>The pulse of the markers\<close>

lemma pulse_range: "0 \<le> pulse now \<and> pulse now \<le> 1"
proof -
  have "- 1 \<le> sin (now / 300)" and "sin (now / 300) \<le> 1" by simp_all
  then have "0 \<le> sin (now / 300) + 1" and "sin (now / 300) + 1 \<le> 2" by linarith+
  then show ?thesis by (simp add: pulse_def)
qed

lemma pulse_period: "pulse (now + 600 * pi) = pulse now"
proof -
  have e: "(now + 600 * pi) / 300 = now / 300 + 2 * pi" by (simp add: field_simps)
  show ?thesis unfolding pulse_def e sin_periodic by (rule refl)
qed

lemma pulse_no_shorter_period:
  assumes "0 < p" "p < 600 * pi"
  shows "\<exists>now. pulse (now + p) \<noteq> pulse now"
proof (rule ccontr)
  assume "\<not> (\<exists>now. pulse (now + p) \<noteq> pulse now)"
  then have "pulse (150 * pi + p) = pulse (150 * pi)" by blast
  then have "sin ((150 * pi + p) / 300) = sin ((150 * pi) / 300)" by (simp add: pulse_def)
  moreover have "(150 * pi + p) / 300 = pi / 2 + p / 300" by (simp add: field_simps)
  ultimately have "sin (pi / 2 + p / 300) = sin (150 * pi / 300)" by (simp only:)
  then have "sin (pi / 2 + p / 300) = 1" by simp
  then have "cos (p / 300) = 1" by (simp add: sin_add)
  then obtain n :: int where n: "p / 300 = of_int n * 2 * pi" using cos_one_2pi_int by blast
  then have p: "p = of_int n * (600 * pi)" by (simp add: field_simps)
  from assms(1) p have "0 < of_int n * (600 * pi)" by simp
  then have "0 < n" by (simp add: zero_less_mult_iff)
  moreover have "0 < 600 * pi" by simp
  with assms(2) p have "of_int n < (1::real)"
    using mult_less_cancel_right_pos [of "600 * pi" "of_int n" 1] by simp
  then have "n < 1" by simp
  ultimately show False by simp
qed

text \<open>
  Claim C9, as the code has it. For every clock reading the pulse lies in the closed
  interval from 0 to 1; it is the sine of a three-hundredth of the reading, moved from
  \<open>[-1, 1]\<close> to \<open>[0, 1]\<close>. Its period is \<open>600 \<sqdot> \<pi>\<close> milliseconds, about 1885, and no shorter
  positive time is a period. The ring of a marker depends on the clock reading only, so two
  markers drawn at the same reading pulse alike wherever they lie.
\<close>

theorem pulse_of_clock:
  "0 \<le> pulse now \<and> pulse now \<le> 1 \<and>
   pulse now = (sin (now / 300) + 1) / 2 \<and>
   pulse (now + 600 * pi) = pulse now \<and>
   (0 < p \<and> p < 600 * pi \<longrightarrow> (\<exists>t. pulse (t + p) \<noteq> pulse t)) \<and>
   snd (marker_ring now c1) = snd (marker_ring now c2)"
  using pulse_range [of now] pulse_period [of now] pulse_no_shorter_period [of p]
  by (simp add: marker_ring_def) (simp add: pulse_def)

theorem pulse_of_clock_witness:
  "(0::real) < 350 \<and> 350 < 600 * pi \<and> (\<exists>t. pulse (t + 350) \<noteq> pulse t)"
proof -
  have "600 * 2 \<le> 600 * pi" using pi_ge_two by simp
  then have a: "(0::real) < 350 \<and> 350 < 600 * pi" by simp
  with pulse_of_clock [of _ 350] show ?thesis by blast
qed

theorem pulse_of_clock_counterexample:
  "\<not> (\<exists>p. 300 \<le> p \<and> p \<le> 400 \<and> (\<forall>now. pulse (now + p) = pulse now))"
proof
  assume "\<exists>p. 300 \<le> p \<and> p \<le> 400 \<and> (\<forall>now. pulse (now + p) = pulse now)"
  then obtain p where p: "300 \<le> p" "p \<le> 400" and all: "\<forall>now. pulse (now + p) = pulse now"
    by blast
  have "600 * 2 \<le> 600 * pi" using pi_ge_two by simp
  with p have "0 < p" "p < 600 * pi" by simp_all
  then obtain now where "pulse (now + p) \<noteq> pulse now"
    using pulse_no_shorter_period by blast
  with all show False by blast
qed

end
